theory Spec2Isabelle
  imports Complex_Main "HOL-Library.Sublist" "HOL-Library.AList"
begin

section \<open>The incoming request\<close>

text \<open>
  The handler of \<^verbatim>\<open>src/app/api/sam-search/route.ts\<close> reads three headers and the
  query parameters of the URL. \<^verbatim>\<open>headers.get\<close> and \<^verbatim>\<open>searchParams.get\<close> return
  \<^verbatim>\<open>null\<close> for a missing name: \<open>None\<close> here.
\<close>

record request =
  h_x_forwarded_for :: "string option"
  h_x_real_ip :: "string option"
  h_authorization :: "string option"
  p_q :: "string option"
  p_startDate :: "string option"
  p_endDate :: "string option"
  p_naicsCode :: "string option"
  p_state :: "string option"
  p_agency :: "string option"
  p_type :: "string option"
  p_setAside :: "string option"
  p_active :: "string option"
  p_limit :: "string option"
  p_offset :: "string option"
  p_semantic :: "string option"
  p_provider :: "string option"
  p_samApiKey :: "string option"
  p_entityName :: "string option"
  p_contractVehicle :: "string option"
  p_classificationCode :: "string option"
  p_fundingSource :: "string option"
  p_responseDeadlineFrom :: "string option"
  p_responseDeadlineTo :: "string option"
  p_estimatedValueMin :: "string option"
  p_estimatedValueMax :: "string option"
  p_hasAttachments :: "string option"

text \<open>
  JavaScript truthiness of a nullable string: \<^verbatim>\<open>null\<close> and the empty string are falsy.
  \<open>truthy s\<close> is \<^verbatim>\<open>s || undefined\<close>, and \<open>or_str s d\<close> is \<^verbatim>\<open>s || d\<close>.
\<close>

definition truthy :: "string option \<Rightarrow> string option" where
  "truthy s = (case s of None \<Rightarrow> None | Some v \<Rightarrow> if v = [] then None else Some v)"

definition or_str :: "string option \<Rightarrow> string \<Rightarrow> string" where
  "or_str s d = (case truthy s of None \<Rightarrow> d | Some v \<Rightarrow> v)"

section \<open>JavaScript primitives used by the handler\<close>

text \<open>
  Numbers that the handler reads with \<^verbatim>\<open>parseInt\<close> are integers or \<^verbatim>\<open>NaN\<close>: an
  \<open>int option\<close>, \<open>None\<close> for \<^verbatim>\<open>NaN\<close> (and for \<^verbatim>\<open>undefined\<close>, which the code treats
  the same way: both are falsy). Integers are exact here; a double is exact up to \<open>2^53\<close>.
  Strings are byte strings in UTF-8. The white space that \<^verbatim>\<open>parseInt\<close> and \<^verbatim>\<open>trim\<close>
  skip is the white space and the line terminators of ECMAScript: six characters of one
  byte, U+00A0 of two bytes, and U+1680, U+2000 to U+200A, U+2028, U+2029, U+202F, U+205F,
  U+3000 and U+FEFF of three bytes.
\<close>

definition is_space1 :: "char \<Rightarrow> bool" where
  "is_space1 a = (a = CHR 0x20 \<or> a = CHR 0x09 \<or> a = CHR 0x0A \<or> a = CHR 0x0B
                  \<or> a = CHR 0x0C \<or> a = CHR 0x0D)"

definition is_space2 :: "char \<Rightarrow> char \<Rightarrow> bool" where
  "is_space2 a b = (a = CHR 0xC2 \<and> b = CHR 0xA0)"

definition is_space3 :: "char \<Rightarrow> char \<Rightarrow> char \<Rightarrow> bool" where
  "is_space3 a b c =
     (a = CHR 0xE1 \<and> b = CHR 0x9A \<and> c = CHR 0x80
      \<or> a = CHR 0xE2 \<and> b = CHR 0x80
          \<and> ((of_char c :: nat) \<in> {0x80..0x8A} \<or> c = CHR 0xA8 \<or> c = CHR 0xA9 \<or> c = CHR 0xAF)
      \<or> a = CHR 0xE2 \<and> b = CHR 0x81 \<and> c = CHR 0x9F
      \<or> a = CHR 0xE3 \<and> b = CHR 0x80 \<and> c = CHR 0x80
      \<or> a = CHR 0xEF \<and> b = CHR 0xBB \<and> c = CHR 0xBF)"

text \<open>
  Dropping the white space at the start of a string. With \<open>back\<close> set, the string is
  read from its end (it is given reversed), so the bytes of a character come last first.
\<close>

fun drop_spaces :: "bool \<Rightarrow> string \<Rightarrow> string" where
  "drop_spaces back (a # b # c # s) =
     (if is_space1 a then drop_spaces back (b # c # s)
      else if (if back then is_space2 b a else is_space2 a b) then drop_spaces back (c # s)
      else if (if back then is_space3 c b a else is_space3 a b c) then drop_spaces back s
      else a # b # c # s)"
| "drop_spaces back [a, b] =
     (if is_space1 a then drop_spaces back [b]
      else if (if back then is_space2 b a else is_space2 a b) then []
      else [a, b])"
| "drop_spaces back [a] = (if is_space1 a then [] else [a])"
| "drop_spaces back [] = []"

definition is_digit :: "char \<Rightarrow> bool" where
  "is_digit c = (let n = (of_char c :: nat) in 48 \<le> n \<and> n \<le> 57)"

text \<open>The value of a character as a digit of a radix up to 16.\<close>

definition digit_value :: "char \<Rightarrow> nat option" where
  "digit_value c =
     (let n = (of_char c :: nat) in
      if 48 \<le> n \<and> n \<le> 57 then Some (n - 48)
      else if 97 \<le> n \<and> n \<le> 102 then Some (n - 87)
      else if 65 \<le> n \<and> n \<le> 70 then Some (n - 55)
      else None)"

text \<open>
  The longest prefix of digits of the radix, read as a number; \<open>None\<close> when the prefix
  is empty. \<open>seen\<close> tells whether a digit has been read.
\<close>

fun read_digits :: "nat \<Rightarrow> bool \<Rightarrow> nat \<Rightarrow> string \<Rightarrow> nat option" where
  "read_digits radix seen acc [] = (if seen then Some acc else None)"
| "read_digits radix seen acc (c # cs) =
     (case digit_value c of
        None \<Rightarrow> (if seen then Some acc else None)
      | Some d \<Rightarrow>
          if d < radix then read_digits radix True (acc * radix + d) cs
          else (if seen then Some acc else None))"

definition parseInt :: "string \<Rightarrow> int option" where
  "parseInt str =
     (let s = drop_spaces False str;
          neg = (s \<noteq> [] \<and> hd s = CHR ''-'');
          s1 = (if s \<noteq> [] \<and> (hd s = CHR ''-'' \<or> hd s = CHR ''+'') then tl s else s);
          hex = (take 2 s1 = ''0x'' \<or> take 2 s1 = ''0X'');
          r = (if hex then read_digits 16 False 0 (drop 2 s1) else read_digits 10 False 0 s1)
      in case r of
           None \<Rightarrow> None
         | Some n \<Rightarrow> Some (if neg then - int n else int n))"

text \<open>\<^verbatim>\<open>Number.prototype.toString\<close> on an integer.\<close>

fun show_nat :: "nat \<Rightarrow> string" where
  "show_nat n =
     (if n < 10 then [''0123456789'' ! n]
      else show_nat (n div 10) @ [''0123456789'' ! (n mod 10)])"

definition show_int :: "int \<Rightarrow> string" where
  "show_int i = (if i < 0 then CHR ''-'' # show_nat (nat (- i)) else show_nat (nat i))"

text \<open>\<^verbatim>\<open>x || d\<close> on a number: \<^verbatim>\<open>NaN\<close>, \<^verbatim>\<open>undefined\<close> and \<open>0\<close> are falsy.\<close>

definition or_num :: "int option \<Rightarrow> int \<Rightarrow> int" where
  "or_num x d = (case x of None \<Rightarrow> d | Some n \<Rightarrow> if n = 0 then d else n)"

text \<open>
  A number read with \<^verbatim>\<open>parseFloat\<close>. The handler only tests it for truthiness and prints
  it, so a non-zero number is kept as its \<^verbatim>\<open>toString()\<close> rendering.
\<close>

datatype jsfloat = FNaN | FZero | FNum string

text \<open>\<^verbatim>\<open>String.prototype.trim\<close> and \<^verbatim>\<open>str.replace(pat, '')\<close> with a string pattern
  (the first occurrence only).\<close>

definition trim :: "string \<Rightarrow> string" where
  "trim s = rev (drop_spaces True (rev (drop_spaces False s)))"

fun remove_first :: "string \<Rightarrow> string \<Rightarrow> string" where
  "remove_first pat [] = []"
| "remove_first pat (c # cs) =
     (if prefix pat (c # cs) then drop (length pat) (c # cs)
      else c # remove_first pat cs)"

text \<open>\<^verbatim>\<open>str.split(sep)\<close> for a separator of one character.\<close>

fun split_on :: "char \<Rightarrow> string \<Rightarrow> string list" where
  "split_on sep [] = [[]]"
| "split_on sep (c # cs) =
     (if c = sep then [] # split_on sep cs
      else (case split_on sep cs of
              [] \<Rightarrow> [[c]]
            | w # ws \<Rightarrow> (c # w) # ws))"

section \<open>Search filters and the upstream query\<close>

text \<open>
  \<^verbatim>\<open>SAMSearchFilters\<close>. Every field is optional in the source; \<open>None\<close> is \<^verbatim>\<open>undefined\<close>.
  The nested objects \<^verbatim>\<open>responseDeadline\<close> and \<^verbatim>\<open>estimatedValue\<close> are flattened into
  their two fields each.
\<close>

record SAMSearchFilters =
  keyword :: "string option"
  startDate :: "string option"
  endDate :: "string option"
  naicsCode :: "string option"
  state :: "string option"
  agency :: "string option"
  noticeType :: "string option"
  setAside :: "string option"
  active :: "bool option"
  limit :: "int option"
  offset :: "int option"
  entityName :: "string option"
  contractVehicle :: "string option"
  classificationCode :: "string option"
  fundingSource :: "string option"
  responseDeadline_from :: "string option"
  responseDeadline_to :: "string option"
  estimatedValue_min :: "jsfloat option"
  estimatedValue_max :: "jsfloat option"
  hasAttachments :: "bool option"

text \<open>
  One \<^verbatim>\<open>if (filters.x) params.append(name, filters.x)\<close>: a string field is appended when
  it is truthy.
\<close>

definition str_param :: "string \<Rightarrow> string option \<Rightarrow> (string \<times> string) list" where
  "str_param name v = (case truthy v of None \<Rightarrow> [] | Some x \<Rightarrow> [(name, x)])"

definition float_param :: "string \<Rightarrow> jsfloat option \<Rightarrow> (string \<times> string) list" where
  "float_param name v = (case v of Some (FNum x) \<Rightarrow> [(name, x)] | _ \<Rightarrow> [])"

definition bool_string :: "bool \<Rightarrow> string" where
  "bool_string b = (if b then ''true'' else ''false'')"

text \<open>
  The \<^verbatim>\<open>URLSearchParams\<close> that \<^verbatim>\<open>searchSAMOpportunities\<close> builds, as the list of its
  name and value pairs in the order of the \<^verbatim>\<open>append\<close> calls.
\<close>

definition build_params :: "SAMSearchFilters \<Rightarrow> (string \<times> string) list" where
  "build_params filters =
     str_param ''q'' (keyword filters)
     @ str_param ''postedFrom'' (startDate filters)
     @ str_param ''postedTo'' (endDate filters)
     @ str_param ''naicsCode'' (naicsCode filters)
     @ str_param ''state'' (state filters)
     @ str_param ''agency'' (agency filters)
     @ str_param ''noticeType'' (noticeType filters)
     @ str_param ''setAside'' (setAside filters)
     @ (case active filters of None \<Rightarrow> [] | Some b \<Rightarrow> [(''active'', bool_string b)])
     @ str_param ''entityName'' (entityName filters)
     @ str_param ''contractVehicle'' (contractVehicle filters)
     @ str_param ''classificationCode'' (classificationCode filters)
     @ str_param ''fundingSource'' (fundingSource filters)
     @ str_param ''responseDeadlineFrom'' (responseDeadline_from filters)
     @ str_param ''responseDeadlineTo'' (responseDeadline_to filters)
     @ float_param ''estimatedValueMin'' (estimatedValue_min filters)
     @ float_param ''estimatedValueMax'' (estimatedValue_max filters)
     @ (if hasAttachments filters = Some True then [(''hasAttachments'', ''true'')] else [])
     @ [(''limit'', show_int (min (or_num (limit filters) 50) 100)),
        (''offset'', show_int (or_num (offset filters) 0)),
        (''includeCount'', ''true''),
        (''format'', ''json'')]"

section \<open>The world outside the handler\<close>

text \<open>
  What one request sees of the outside: the clock, the calendar, two JavaScript parsers
  that are not spelled out here, the upstream registry and the two embedding endpoints
  (the record \<open>env\<close> below).
  The clock is read once: every \<^verbatim>\<open>Date.now()\<close> of one request returns \<open>date_now\<close>.
\<close>

record raw_opportunity =
  r_noticeId :: "string option"
  r_solicitationNumber :: "string option"
  r_title :: "string option"
  r_description :: "string option"
  r_synopsis :: "string option"
  r_other :: "(string \<times> string) list"

record upstream_body =
  opportunitiesData :: "raw_opportunity list option"
  reported_totalRecords :: nat

text \<open>
  The outcome of the \<^verbatim>\<open>fetch\<close> of the registry: a success response with its parsed
  body; a response that is not \<^verbatim>\<open>ok\<close>, with its status, status text, body text and the
  truthy \<^verbatim>\<open>errorMessage\<close> of the body when the body parses as JSON and has one; or an
  exception (the request failed, or the body of a success response is not JSON).
\<close>

datatype js_exception = JsError string | JsOther

datatype upstream_response =
    UpstreamOk upstream_body
  | UpstreamNotOk nat string string "string option"
  | UpstreamThrows js_exception

text \<open>
  What an embedding function returns: a vector of numbers, or some other value. The code
  does not check what it reads from the body of a success response: \<^verbatim>\<open>data.data[0].embedding\<close>
  may be \<^verbatim>\<open>undefined\<close>, and the Hugging Face body may be any JSON value that is not an
  array. \<open>NonVector\<close> stands for every such value.
\<close>

datatype embedding = Vector "real list" | NonVector

text \<open>
  The outcome of the call of an embedding endpoint: a success response, with the value
  that the code reads from its body; a response that is not \<^verbatim>\<open>ok\<close>, with the detail the
  code puts in its message; or an exception raised by the request or by reading the body.
\<close>

datatype embed_reply =
    EmbedOk embedding
  | EmbedNotOk string
  | EmbedThrows js_exception

text \<open>
  \<open>cosine_on_nonvector\<close> is not of the outside world: it is what \<^verbatim>\<open>cosineSimilarity\<close>
  of \<^verbatim>\<open>@/lib/utils\<close>, which is not among the sources, does when one of its arguments
  is not a vector (it throws, or it returns a number). The spec does not say, so it is left
  open here.
\<close>

record env =
  date_now :: int
  defaultStartDate :: string
  defaultEndDate :: string
  parseDate :: "string \<Rightarrow> string option"
  parseFloat :: "string \<Rightarrow> jsfloat"
  upstream :: "(string \<times> string) list \<Rightarrow> string \<Rightarrow> upstream_response"
  openai_endpoint :: "string \<Rightarrow> string \<Rightarrow> embed_reply"
  huggingface_endpoint :: "string \<Rightarrow> string \<Rightarrow> embed_reply"
  cosine_on_nonvector :: "embedding \<Rightarrow> embedding \<Rightarrow> js_exception + real"

section \<open>Rate limiter\<close>

definition SAM_RATE_LIMIT_WINDOW :: int where
  "SAM_RATE_LIMIT_WINDOW = 60000"

definition SAM_RATE_LIMIT_MAX_REQUESTS :: nat where
  "SAM_RATE_LIMIT_MAX_REQUESTS = 100"

record rate_entry =
  count :: nat
  timestamp :: int

type_synonym rate_map = "string \<rightharpoonup> rate_entry"

definition clientIp :: "request \<Rightarrow> string" where
  "clientIp req =
     (case truthy (h_x_forwarded_for req) of
        Some ip \<Rightarrow> ip
      | None \<Rightarrow> or_str (h_x_real_ip req) ''unknown'')"

text \<open>
  \<^verbatim>\<open>checkSAMRateLimit\<close>: the map \<^verbatim>\<open>samRateLimitMap\<close> is passed in and returned,
  \<open>now\<close> is the value of \<^verbatim>\<open>Date.now()\<close>.
\<close>

definition checkSAMRateLimit :: "request \<Rightarrow> int \<Rightarrow> rate_map \<Rightarrow> bool \<times> rate_map" where
  "checkSAMRateLimit req now m =
     (let ip = clientIp req in
      case m ip of
        None \<Rightarrow> (True, m(ip \<mapsto> \<lparr>count = 1, timestamp = now\<rparr>))
      | Some clientData \<Rightarrow>
          if now - timestamp clientData > SAM_RATE_LIMIT_WINDOW
          then (True, m(ip \<mapsto> \<lparr>count = 1, timestamp = now\<rparr>))
          else if count clientData \<ge> SAM_RATE_LIMIT_MAX_REQUESTS
          then (False, m)
          else (True, m(ip \<mapsto> clientData\<lparr>count := count clientData + 1\<rparr>)))"

text \<open>
  A sequence of calls, each with its request and its clock reading, threaded through the
  map; the result lists the answer to every call.
\<close>

fun run_calls :: "rate_map \<Rightarrow> (request \<times> int) list \<Rightarrow> bool list \<times> rate_map" where
  "run_calls m [] = ([], m)"
| "run_calls m ((req, now) # cs) =
     (case checkSAMRateLimit req now m of
        (a, m') \<Rightarrow> (case run_calls m' cs of (as, m'') \<Rightarrow> (a # as, m'')))"

text \<open>The answers given to the calls of one identity, in call order.\<close>

definition answers_for :: "string \<Rightarrow> rate_map \<Rightarrow> (request \<times> int) list \<Rightarrow> bool list" where
  "answers_for ip m cs =
     map fst (filter (\<lambda>(a, (req, now)). clientIp req = ip) (zip (fst (run_calls m cs)) cs))"

definition calls_of :: "string \<Rightarrow> (request \<times> int) list \<Rightarrow> (request \<times> int) list" where
  "calls_of ip cs = filter (\<lambda>(req, now). clientIp req = ip) cs"

section \<open>Opportunities, responses and the server state\<close>

text \<open>
  \<^verbatim>\<open>SAMOpportunity\<close>: the fields that the handler reads or sets are spelled out, the
  fields copied from the registry as they are form \<open>other\<close>.
\<close>

record SAMOpportunity =
  opp_id :: "string option"
  noticeId :: "string option"
  title :: "string option"
  description :: string
  synopsis :: string
  other :: "(string \<times> string) list"
  relevanceScore :: real
  isFavorite :: bool
  tags :: "string list"

record facets_rec =
  naicsCodes :: "string list"
  states :: "string list"
  agencies :: "string list"
  types :: "string list"

text \<open>
  \<^verbatim>\<open>SAMSearchResponse\<close>; its \<^verbatim>\<open>limit\<close> and \<^verbatim>\<open>offset\<close> are \<open>resp_limit\<close> and
  \<open>resp_offset\<close> here, since the filters have fields of the same names.
\<close>

record SAMSearchResponse =
  opportunities :: "SAMOpportunity list"
  totalRecords :: nat
  resp_limit :: int
  resp_offset :: int
  facets :: facets_rec

text \<open>
  The JSON object of a response: a key that the object does not have is \<open>None\<close>.
  \<open>body_timestamp\<close> is its key \<^verbatim>\<open>timestamp\<close>.
\<close>

record response_body =
  success :: "bool option"
  data :: "SAMSearchResponse option"
  cached :: "bool option"
  error :: "string option"
  body_timestamp :: "int option"

record http_response =
  status :: nat
  body :: response_body

text \<open>
  The module's three maps, the store behind \<^verbatim>\<open>withCache\<close>, and two logs that record
  every call made to the registry and to an embedding endpoint. \<^verbatim>\<open>embeddingCache\<close> is
  kept as the list of its entries in insertion order, which the periodic sweep reads:
  \<^verbatim>\<open>get\<close> is \<open>map_of\<close> and \<^verbatim>\<open>set\<close> is \<open>AList.update\<close> (a present key keeps its
  place, a new key goes to the end). The keys of \<^verbatim>\<open>searchResultsCache\<close> and of the
  \<^verbatim>\<open>withCache\<close> store are made from \<^verbatim>\<open>JSON.stringify(filters)\<close>; \<open>json_key\<close> below
  gives the filters as that string shows them.
\<close>

record server_state =
  samRateLimitMap :: rate_map
  embeddingCache :: "(string \<times> embedding) list"
  searchResultsCache :: "SAMSearchFilters \<rightharpoonup> (SAMSearchResponse \<times> int)"
  withCacheStore :: "SAMSearchFilters \<rightharpoonup> (SAMOpportunity list \<times> int)"
  upstreamCalls :: "((string \<times> string) list \<times> string) list"
  embeddingCalls :: "(string \<times> string) list"

definition CACHE_DURATION :: int where
  "CACHE_DURATION = 5 * 60 * 1000"

text \<open>
  \<^verbatim>\<open>JSON.stringify\<close> leaves out a field that is \<^verbatim>\<open>undefined\<close> and writes \<^verbatim>\<open>NaN\<close>,
  \<^verbatim>\<open>Infinity\<close> and \<^verbatim>\<open>-Infinity\<close> as \<^verbatim>\<open>null\<close>; every other number is written as
  \<^verbatim>\<open>toString\<close> prints it. So two filters get the same key exactly when they agree after
  the infinite bounds of the estimated value are replaced by \<^verbatim>\<open>NaN\<close>.
\<close>

definition json_number :: "jsfloat \<Rightarrow> jsfloat" where
  "json_number x = (if x = FNum ''Infinity'' \<or> x = FNum ''-Infinity'' then FNaN else x)"

definition json_key :: "SAMSearchFilters \<Rightarrow> SAMSearchFilters" where
  "json_key filters =
     filters\<lparr>estimatedValue_min := map_option json_number (estimatedValue_min filters),
             estimatedValue_max := map_option json_number (estimatedValue_max filters)\<rparr>"


section \<open>Fetching from the registry\<close>

text \<open>
  Modelled from the spec: \<^verbatim>\<open>withCache\<close> of \<^verbatim>\<open>@/lib/redis\<close> is not among the sources.
  The spec's response cache (\<^verbatim>\<open>getOrCompute(fingerprint, ttl, compute)\<close>): on a live hit
  (\<open>now - storedAt < ttl\<close>) it returns the stored payload without invoking \<open>compute\<close>;
  on a miss or an expired entry it invokes \<open>compute\<close>, stores the result with the current
  time and returns it; an exception of \<open>compute\<close> propagates and nothing is stored.
  The time to live is in seconds.
\<close>

definition live_payload ::
  "int \<Rightarrow> nat \<Rightarrow> server_state \<Rightarrow> SAMSearchFilters \<Rightarrow> SAMOpportunity list option" where
  "live_payload now_ms ttl s cacheKey =
     (case withCacheStore s cacheKey of
        None \<Rightarrow> None
      | Some (payload, storedAt) \<Rightarrow>
          if now_ms - storedAt < int ttl * 1000 then Some payload else None)"

definition withCache ::
  "int \<Rightarrow> SAMSearchFilters \<Rightarrow>
   (server_state \<Rightarrow> (js_exception + SAMOpportunity list) \<times> server_state) \<Rightarrow>
   nat \<Rightarrow> server_state \<Rightarrow> (js_exception + SAMOpportunity list) \<times> server_state" where
  "withCache now_ms cacheKey compute ttl s =
     (case live_payload now_ms ttl s cacheKey of
        Some payload \<Rightarrow> (Inr payload, s)
      | None \<Rightarrow>
          (case compute s of
             (Inl ex, s') \<Rightarrow> (Inl ex, s')
           | (Inr v, s') \<Rightarrow>
               (Inr v, s'\<lparr>withCacheStore := (withCacheStore s')(cacheKey \<mapsto> (v, now_ms))\<rparr>)))"

definition or_opt :: "string option \<Rightarrow> string option \<Rightarrow> string option" where
  "or_opt a b = (case truthy a of Some x \<Rightarrow> Some x | None \<Rightarrow> b)"

definition transform_opportunity :: "raw_opportunity \<Rightarrow> SAMOpportunity" where
  "transform_opportunity opportunity =
     \<lparr>opp_id = or_opt (r_noticeId opportunity) (r_solicitationNumber opportunity),
      noticeId = r_noticeId opportunity,
      title = r_title opportunity,
      description = or_str (r_description opportunity) [],
      synopsis = or_str (r_synopsis opportunity) [],
      other = r_other opportunity,
      relevanceScore = 0,
      isFavorite = False,
      tags = []\<rparr>"

definition upstream_error_message :: "nat \<Rightarrow> string \<Rightarrow> string \<Rightarrow> string option \<Rightarrow> string" where
  "upstream_error_message st statusText bodyText errorMessage =
     ''SAM.gov API error: '' @ show_nat st @ '' '' @ statusText @ '' - ''
       @ (case errorMessage of Some m \<Rightarrow> m | None \<Rightarrow> bodyText)"

text \<open>
  The function that \<^verbatim>\<open>searchSAMOpportunities\<close> hands to \<^verbatim>\<open>withCache\<close>: build the
  parameters, call the registry (the call is logged), throw on a failure, translate the
  listings otherwise.
\<close>

definition fetch_opportunities ::
  "env \<Rightarrow> SAMSearchFilters \<Rightarrow> string \<Rightarrow> server_state \<Rightarrow>
   (js_exception + SAMOpportunity list) \<times> server_state" where
  "fetch_opportunities e filters samApiKey s =
     (let params = build_params filters;
          s' = s\<lparr>upstreamCalls := upstreamCalls s @ [(params, samApiKey)]\<rparr>
      in case upstream e params samApiKey of
           UpstreamNotOk st statusText bodyText errorMessage \<Rightarrow>
             (Inl (JsError (upstream_error_message st statusText bodyText errorMessage)), s')
         | UpstreamThrows ex \<Rightarrow> (Inl ex, s')
         | UpstreamOk b \<Rightarrow>
             (Inr (case opportunitiesData b of
                     None \<Rightarrow> []
                   | Some raws \<Rightarrow> map transform_opportunity raws), s'))"

definition searchSAMOpportunities ::
  "env \<Rightarrow> SAMSearchFilters \<Rightarrow> string \<Rightarrow> server_state \<Rightarrow>
   (js_exception + SAMOpportunity list) \<times> server_state" where
  "searchSAMOpportunities e filters samApiKey s =
     withCache (date_now e) (json_key filters) (fetch_opportunities e filters samApiKey)
       1800 s"

section \<open>Embeddings\<close>

definition generateOpenAIEmbeddings :: "env \<Rightarrow> string \<Rightarrow> string \<Rightarrow> js_exception + embedding" where
  "generateOpenAIEmbeddings e text apiKey =
     (case openai_endpoint e text apiKey of
        EmbedOk v \<Rightarrow> Inr v
      | EmbedNotOk detail \<Rightarrow> Inl (JsError (''OpenAI Embeddings API error: '' @ detail))
      | EmbedThrows ex \<Rightarrow> Inl ex)"

definition generateHuggingFaceEmbeddings ::
  "env \<Rightarrow> string \<Rightarrow> string \<Rightarrow> js_exception + embedding" where
  "generateHuggingFaceEmbeddings e text apiKey =
     (case huggingface_endpoint e text apiKey of
        EmbedOk v \<Rightarrow> Inr v
      | EmbedNotOk detail \<Rightarrow> Inl (JsError (''Hugging Face Embeddings API error: '' @ detail))
      | EmbedThrows ex \<Rightarrow> Inl ex)"

text \<open>
  \<^verbatim>\<open>generateEmbeddings\<close> runs in two steps, with an \<^verbatim>\<open>await\<close> between them. The first
  step looks the key up and, on a miss, sends the request to the provider (the call is
  logged); a cached value or an unknown provider leaves nothing to wait for. The second
  step runs when the provider has answered: a value it returned is stored in the cache.
  Other code may run between the two steps.
\<close>

datatype in_flight =
    Settled "js_exception + embedding"
  | Pending string "js_exception + embedding"

definition begin_embedding ::
  "env \<Rightarrow> string \<Rightarrow> string \<Rightarrow> string \<Rightarrow> server_state \<Rightarrow> in_flight \<times> server_state" where
  "begin_embedding e text provider apiKey s =
     (let cacheKey = provider @ '':'' @ text;
          called = s\<lparr>embeddingCalls := embeddingCalls s @ [(provider, text)]\<rparr>
      in case map_of (embeddingCache s) cacheKey of
           Some v \<Rightarrow> (Settled (Inr v), s)
         | None \<Rightarrow>
             if provider = ''openai''
             then (Pending cacheKey (generateOpenAIEmbeddings e text apiKey), called)
             else if provider = ''huggingface''
             then (Pending cacheKey (generateHuggingFaceEmbeddings e text apiKey), called)
             else (Settled (Inl (JsError (''Embedding provider '' @ provider
                                           @ '' not supported''))), s))"

definition complete_embedding ::
  "in_flight \<Rightarrow> server_state \<Rightarrow> (js_exception + embedding) \<times> server_state" where
  "complete_embedding f s =
     (case f of
        Settled r \<Rightarrow> (r, s)
      | Pending cacheKey (Inl ex) \<Rightarrow> (Inl ex, s)
      | Pending cacheKey (Inr v) \<Rightarrow>
          (Inr v, s\<lparr>embeddingCache := AList.update cacheKey v (embeddingCache s)\<rparr>))"

text \<open>A call that is awaited on its own: nothing runs between its two steps.\<close>

definition generateEmbeddings ::
  "env \<Rightarrow> string \<Rightarrow> string \<Rightarrow> string \<Rightarrow> server_state \<Rightarrow>
   (js_exception + embedding) \<times> server_state" where
  "generateEmbeddings e text provider apiKey s =
     (case begin_embedding e text provider apiKey s of
        (f, s') \<Rightarrow> complete_embedding f s')"

section \<open>Relevance ranking\<close>

text \<open>
  Modelled from the spec: \<^verbatim>\<open>cosineSimilarity\<close> of \<^verbatim>\<open>@/lib/utils\<close> is not among the
  sources. The spec defines it as \<open>dot(a,b) / (\<parallel>a\<parallel> \<sqdot> \<parallel>b\<parallel>)\<close>, and as 0 when either vector
  has zero magnitude. Vectors are lists of reals; the rounding of floating-point
  arithmetic is not modelled.
\<close>

definition dot :: "real list \<Rightarrow> real list \<Rightarrow> real" where
  "dot a b = sum_list (map2 (*) a b)"

definition magnitude :: "real list \<Rightarrow> real" where
  "magnitude a = sqrt (dot a a)"

definition cosineSimilarity :: "real list \<Rightarrow> real list \<Rightarrow> real" where
  "cosineSimilarity a b =
     (if magnitude a = 0 \<or> magnitude b = 0 then 0
      else dot a b / (magnitude a * magnitude b))"

text \<open>
  The call \<^verbatim>\<open>cosineSimilarity(queryEmbeddings, opportunityEmbeddings)\<close> on what the
  embedding functions returned.
\<close>

definition similarity :: "env \<Rightarrow> embedding \<Rightarrow> embedding \<Rightarrow> js_exception + real" where
  "similarity e a b =
     (case (a, b) of
        (Vector x, Vector y) \<Rightarrow> Inr (cosineSimilarity x y)
      | _ \<Rightarrow> cosine_on_nonvector e a b)"

text \<open>
  \<^verbatim>\<open>Array.prototype.sort\<close> with a comparator: a stable sort, here by insertion. An
  element goes before the first element that the comparator does not put before it.
\<close>

fun insert_by :: "('a \<Rightarrow> 'a \<Rightarrow> real) \<Rightarrow> 'a \<Rightarrow> 'a list \<Rightarrow> 'a list" where
  "insert_by cmp x [] = [x]"
| "insert_by cmp x (y # ys) =
     (if cmp x y \<le> 0 then x # y # ys else y # insert_by cmp x ys)"

definition js_sort :: "('a \<Rightarrow> 'a \<Rightarrow> real) \<Rightarrow> 'a list \<Rightarrow> 'a list" where
  "js_sort cmp xs = foldr (insert_by cmp) xs []"

text \<open>\<^verbatim>\<open>x || 0\<close> on a score, and the comparator of the ranking.\<close>

definition or_zero :: "real \<Rightarrow> real" where
  "or_zero x = (if x = 0 then 0 else x)"

definition compare_relevance :: "SAMOpportunity \<Rightarrow> SAMOpportunity \<Rightarrow> real" where
  "compare_relevance a b = or_zero (relevanceScore b) - or_zero (relevanceScore a)"

definition opportunity_text :: "SAMOpportunity \<Rightarrow> string" where
  "opportunity_text opportunity =
     (case title opportunity of None \<Rightarrow> ''undefined'' | Some t \<Rightarrow> t)
       @ '' '' @ description opportunity @ '' '' @ synopsis opportunity"

text \<open>
  The \<^verbatim>\<open>Promise.all\<close> over the candidates. \<^verbatim>\<open>map\<close> starts the call of every candidate,
  in list order, before any of them is resumed: each looks the cache up as it is then and
  sends its own request on a miss. Then the calls settle, here in list order: each stores
  what its provider returned, and computes the similarity. One exception among them makes
  the whole step throw. The state returned is the one in which every call has settled.
\<close>

fun begin_all ::
  "env \<Rightarrow> string \<Rightarrow> string \<Rightarrow> SAMOpportunity list \<Rightarrow> server_state \<Rightarrow>
   in_flight list \<times> server_state" where
  "begin_all e provider apiKey [] s = ([], s)"
| "begin_all e provider apiKey (opportunity # rest) s =
     (case begin_embedding e (opportunity_text opportunity) provider apiKey s of
        (f, s') \<Rightarrow>
          (case begin_all e provider apiKey rest s' of
             (fs, s'') \<Rightarrow> (f # fs, s'')))"

fun settle_all ::
  "env \<Rightarrow> embedding \<Rightarrow> (SAMOpportunity \<times> in_flight) list \<Rightarrow> server_state \<Rightarrow>
   (js_exception + SAMOpportunity list) \<times> server_state" where
  "settle_all e queryEmbeddings [] s = (Inr [], s)"
| "settle_all e queryEmbeddings ((opportunity, f) # rest) s =
     (case complete_embedding f s of
        (r, s') \<Rightarrow>
          (case settle_all e queryEmbeddings rest s' of
             (rs, s'') \<Rightarrow>
               (case r of
                  Inl ex \<Rightarrow> Inl ex
                | Inr opportunityEmbeddings \<Rightarrow>
                    (case similarity e queryEmbeddings opportunityEmbeddings of
                       Inl ex \<Rightarrow> Inl ex
                     | Inr sim \<Rightarrow>
                         (case rs of
                            Inl ex \<Rightarrow> Inl ex
                          | Inr scored \<Rightarrow>
                              Inr (opportunity\<lparr>relevanceScore := sim\<rparr> # scored))),
                s'')))"

definition score_all ::
  "env \<Rightarrow> embedding \<Rightarrow> string \<Rightarrow> string \<Rightarrow> SAMOpportunity list \<Rightarrow> server_state \<Rightarrow>
   (js_exception + SAMOpportunity list) \<times> server_state" where
  "score_all e queryEmbeddings provider apiKey opps s =
     (case begin_all e provider apiKey opps s of
        (fs, s') \<Rightarrow> settle_all e queryEmbeddings (zip opps fs) s')"

definition performSemanticSearch ::
  "env \<Rightarrow> SAMOpportunity list \<Rightarrow> string \<Rightarrow> string \<Rightarrow> string \<Rightarrow> server_state \<Rightarrow>
   SAMOpportunity list \<times> server_state" where
  "performSemanticSearch e opps query provider apiKey s =
     (if trim query = [] then (opps, s)
      else case generateEmbeddings e query provider apiKey s of
             (Inl ex, s1) \<Rightarrow> (opps, s1)
           | (Inr queryEmbeddings, s1) \<Rightarrow>
               (case score_all e queryEmbeddings provider apiKey opps s1 of
                  (Inl ex, s2) \<Rightarrow> (opps, s2)
                | (Inr opportunitiesWithScores, s2) \<Rightarrow>
                    (take 25 (js_sort compare_relevance opportunitiesWithScores), s2)))"

section \<open>The handler\<close>

text \<open>
  \<^verbatim>\<open>normalizeDate\<close>. The two regular expressions are spelled out; the last resort,
  \<^verbatim>\<open>new Date(dateStr)\<close> followed by \<^verbatim>\<open>formatDateForSAM\<close>, is \<open>parseDate\<close> of the
  environment.
\<close>

definition digits_of_length :: "nat \<Rightarrow> string \<Rightarrow> bool" where
  "digits_of_length n w = (length w = n \<and> list_all is_digit w)"

definition is_us_date :: "string \<Rightarrow> bool" where
  "is_us_date d =
     (case split_on (CHR ''/'') d of
        [m, dd, y] \<Rightarrow>
          (digits_of_length 1 m \<or> digits_of_length 2 m)
          \<and> (digits_of_length 1 dd \<or> digits_of_length 2 dd)
          \<and> digits_of_length 4 y
      | _ \<Rightarrow> False)"

definition is_iso_date :: "string \<Rightarrow> bool" where
  "is_iso_date d =
     (case split_on (CHR ''-'') d of
        [y, m, dd] \<Rightarrow> digits_of_length 4 y \<and> digits_of_length 2 m \<and> digits_of_length 2 dd
      | _ \<Rightarrow> False)"

definition normalizeDate :: "env \<Rightarrow> string option \<Rightarrow> string option" where
  "normalizeDate e dateStr =
     (case truthy dateStr of
        None \<Rightarrow> None
      | Some d \<Rightarrow>
          if is_us_date d then Some d
          else if is_iso_date d then
            (case split_on (CHR ''-'') d of
               [y, m, dd] \<Rightarrow> Some (m @ ''/'' @ dd @ ''/'' @ y)
             | _ \<Rightarrow> None)
          else parseDate e d)"

definition build_filters :: "env \<Rightarrow> request \<Rightarrow> SAMSearchFilters" where
  "build_filters e req =
     \<lparr>keyword = truthy (p_q req),
      startDate = Some (or_str (normalizeDate e (p_startDate req)) (defaultStartDate e)),
      endDate = Some (or_str (normalizeDate e (p_endDate req)) (defaultEndDate e)),
      naicsCode = truthy (p_naicsCode req),
      state = truthy (p_state req),
      agency = truthy (p_agency req),
      noticeType = truthy (p_type req),
      setAside = truthy (p_setAside req),
      active = Some (p_active req = Some ''true''),
      limit = (case truthy (p_limit req) of None \<Rightarrow> Some 50 | Some l \<Rightarrow> parseInt l),
      offset = (case truthy (p_offset req) of None \<Rightarrow> Some 0 | Some v \<Rightarrow> parseInt v),
      entityName = truthy (p_entityName req),
      contractVehicle = truthy (p_contractVehicle req),
      classificationCode = truthy (p_classificationCode req),
      fundingSource = truthy (p_fundingSource req),
      responseDeadline_from = truthy (normalizeDate e (p_responseDeadlineFrom req)),
      responseDeadline_to = truthy (normalizeDate e (p_responseDeadlineTo req)),
      estimatedValue_min =
        (case truthy (p_estimatedValueMin req) of
           None \<Rightarrow> None | Some v \<Rightarrow> Some (parseFloat e v)),
      estimatedValue_max =
        (case truthy (p_estimatedValueMax req) of
           None \<Rightarrow> None | Some v \<Rightarrow> Some (parseFloat e v)),
      hasAttachments = Some (p_hasAttachments req = Some ''true'')\<rparr>"

definition error_response :: "nat \<Rightarrow> string \<Rightarrow> int option \<Rightarrow> http_response" where
  "error_response st msg ts =
     \<lparr>status = st,
      body = \<lparr>success = None, data = None, cached = None, error = Some msg,
              body_timestamp = ts\<rparr>\<rparr>"

definition success_response :: "SAMSearchResponse \<Rightarrow> bool option \<Rightarrow> int \<Rightarrow> http_response" where
  "success_response d c ts =
     \<lparr>status = 200,
      body = \<lparr>success = Some True, data = Some d, cached = c, error = None,
              body_timestamp = Some ts\<rparr>\<rparr>"

text \<open>The entry of \<^verbatim>\<open>searchResultsCache\<close> that the handler may still return.\<close>

definition live_entry :: "env \<Rightarrow> server_state \<Rightarrow> SAMSearchFilters \<Rightarrow> SAMSearchResponse option" where
  "live_entry e s filters =
     (case searchResultsCache s (json_key filters) of
        None \<Rightarrow> None
      | Some (d, ts) \<Rightarrow> if date_now e - ts < CACHE_DURATION then Some d else None)"

text \<open>
  The step between the fetch and the response: the ranking runs when \<^verbatim>\<open>semantic\<close> is
  \<^verbatim>\<open>'true'\<close>, a keyword is given and the \<^verbatim>\<open>authorization\<close> header leaves a key.
\<close>

definition semantic_step ::
  "env \<Rightarrow> request \<Rightarrow> SAMOpportunity list \<Rightarrow> server_state \<Rightarrow>
   SAMOpportunity list \<times> server_state" where
  "semantic_step e req opps s =
     (case (if p_semantic req = Some ''true'' then truthy (p_q req) else None) of
        None \<Rightarrow> (opps, s)
      | Some kw \<Rightarrow>
          (case truthy (map_option (remove_first ''Bearer '') (h_authorization req)) of
             None \<Rightarrow> (opps, s)
           | Some llmApiKey \<Rightarrow>
               performSemanticSearch e opps kw (or_str (p_provider req) ''openai'')
                 llmApiKey s))"

text \<open>
  \<^verbatim>\<open>GET\<close>. The push of the first ten opportunities to the vector store is left out: its
  failure is caught and it touches none of the state kept here.
\<close>

definition GET :: "env \<Rightarrow> request \<Rightarrow> server_state \<Rightarrow> http_response \<times> server_state" where
  "GET e req s =
     (case checkSAMRateLimit req (date_now e) (samRateLimitMap s) of
        (admitted, m) \<Rightarrow>
          let s0 = s\<lparr>samRateLimitMap := m\<rparr> in
          if \<not> admitted
          then (error_response 429 ''Rate limit exceeded. Please try again later.'' None, s0)
          else
            (case truthy (p_samApiKey req) of
               None \<Rightarrow> (error_response 400 ''SAM API key is required'' None, s0)
             | Some samApiKey \<Rightarrow>
                 let filters = build_filters e req in
                 (case live_entry e s0 filters of
                    Some d \<Rightarrow> (success_response d (Some True) (date_now e), s0)
                  | None \<Rightarrow>
                      (case searchSAMOpportunities e filters samApiKey s0 of
                         (Inl ex, s1) \<Rightarrow>
                           (error_response 500
                              (case ex of
                                 JsError msg \<Rightarrow> msg
                               | JsOther \<Rightarrow> ''An unexpected error occurred'')
                              (Some (date_now e)), s1)
                       | (Inr opps, s1) \<Rightarrow>
                           (case semantic_step e req opps s1 of
                              (finalOpportunities, s2) \<Rightarrow>
                                let response =
                                  \<lparr>opportunities = finalOpportunities,
                                   totalRecords = length opps,
                                   resp_limit = or_num (limit filters) 50,
                                   resp_offset = or_num (offset filters) 0,
                                   facets = \<lparr>naicsCodes = [], states = [], agencies = [],
                                             types = []\<rparr>\<rparr>
                                in (success_response response None (date_now e),
                                    s2\<lparr>searchResultsCache :=
                                         (searchResultsCache s2)
                                           (json_key filters \<mapsto> (response, date_now e))\<rparr>))))))"

text \<open>A request that carries no header and no query parameter.\<close>

definition plain_request :: request where
  "plain_request =
     \<lparr>h_x_forwarded_for = None, h_x_real_ip = None, h_authorization = None,
      p_q = None, p_startDate = None, p_endDate = None, p_naicsCode = None, p_state = None,
      p_agency = None, p_type = None, p_setAside = None, p_active = None, p_limit = None,
      p_offset = None, p_semantic = None, p_provider = None, p_samApiKey = None,
      p_entityName = None, p_contractVehicle = None, p_classificationCode = None,
      p_fundingSource = None, p_responseDeadlineFrom = None, p_responseDeadlineTo = None,
      p_estimatedValueMin = None, p_estimatedValueMax = None, p_hasAttachments = None\<rparr>"

section \<open>Concrete worlds for the examples\<close>

text \<open>
  A freshly started server, and a world in which the registry answers every query with the
  listings \<open>raws\<close> and reports \<open>n\<close> records in total, the OpenAI endpoint embeds a text
  of even length as the vector \<open>[1]\<close> and a text of odd length as \<open>[-1]\<close>, the
  Hugging Face endpoint is down, and \<^verbatim>\<open>cosineSimilarity\<close> throws on a value that is not
  a vector.
\<close>

definition initial_state :: server_state where
  "initial_state =
     \<lparr>samRateLimitMap = Map.empty, embeddingCache = [],
      searchResultsCache = Map.empty, withCacheStore = Map.empty,
      upstreamCalls = [], embeddingCalls = []\<rparr>"

definition world :: "raw_opportunity list \<Rightarrow> nat \<Rightarrow> env" where
  "world raws n =
     \<lparr>date_now = 1000000,
      defaultStartDate = ''10/03/2026'',
      defaultEndDate = ''11/02/2026'',
      parseDate = (\<lambda>d. None),
      parseFloat = (\<lambda>v. FNaN),
      upstream = (\<lambda>params key.
        UpstreamOk \<lparr>opportunitiesData = Some raws, reported_totalRecords = n\<rparr>),
      openai_endpoint = (\<lambda>text key.
        EmbedOk (Vector [if even (length text) then 1 else - 1])),
      huggingface_endpoint = (\<lambda>text key. EmbedNotOk ''Service Unavailable''),
      cosine_on_nonvector = (\<lambda>a b.
        Inl (JsError ''Cannot read properties of undefined''))\<rparr>"

definition listing :: "string \<Rightarrow> raw_opportunity" where
  "listing name =
     \<lparr>r_noticeId = Some name, r_solicitationNumber = None, r_title = Some name,
      r_description = None, r_synopsis = None, r_other = []\<rparr>"

text \<open>The embedding steps touch the embedding cache and the log of embedding calls only.\<close>

definition same_search_state :: "server_state \<Rightarrow> server_state \<Rightarrow> bool" where
  "same_search_state s s' =
     (samRateLimitMap s' = samRateLimitMap s \<and> searchResultsCache s' = searchResultsCache s
      \<and> withCacheStore s' = withCacheStore s \<and> upstreamCalls s' = upstreamCalls s)"

text \<open>
  A world whose registry answers every query with status 500 and a body that is not JSON,
  and one whose registry answers with status 404 and a JSON body that has an
  \<^verbatim>\<open>errorMessage\<close>.
\<close>

definition failing_world :: env where
  "failing_world =
     (world [] 0)\<lparr>upstream := (\<lambda>params key.
        UpstreamNotOk 500 ''Internal Server Error'' ''boom'' None)\<rparr>"

definition rejecting_world :: env where
  "rejecting_world =
     (world [] 0)\<lparr>upstream := (\<lambda>params key.
        UpstreamNotOk 404 ''Not Found''
          (''{'' @ [CHR 0x22] @ ''errorMessage'' @ [CHR 0x22] @ '':'' @ [CHR 0x22]
             @ ''No such notice'' @ [CHR 0x22] @ ''}'')
          (Some ''No such notice''))\<rparr>"




text \<open>A request for a semantic search with the keyword \<open>q\<close> and an embedding key.\<close>

definition semantic_request :: request where
  "semantic_request =
     plain_request\<lparr>h_authorization := Some ''Bearer x'', p_q := Some ''q'',
       p_semantic := Some ''true'', p_samApiKey := Some ''k''\<rparr>"

section \<open>Properties of the rate limiter\<close>

lemma checkSAMRateLimit_other:
  "clientIp req \<noteq> ip \<Longrightarrow> snd (checkSAMRateLimit req now m) ip = m ip"
  by (simp add: checkSAMRateLimit_def Let_def split: option.splits)

lemma answers_for_Nil: "answers_for ip m [] = []"
  by (simp add: answers_for_def)

lemma answers_for_Cons:
  "answers_for ip m ((req, now) # cs) =
     (if clientIp req = ip
      then fst (checkSAMRateLimit req now m) # answers_for ip (snd (checkSAMRateLimit req now m)) cs
      else answers_for ip (snd (checkSAMRateLimit req now m)) cs)"
  by (simp add: answers_for_def split: prod.splits)

lemma upt_0_Suc_shift: "[0..<Suc n] = 0 # map Suc [0..<n]"
  by (simp add: upt_conv_Cons map_Suc_upt del: upt_Suc)

lemma answers_open_window:
  "m ip = Some cd \<Longrightarrow>
   \<forall>(req, now) \<in> set cs. clientIp req = ip \<longrightarrow> now - timestamp cd \<le> SAM_RATE_LIMIT_WINDOW \<Longrightarrow>
   answers_for ip m cs =
     map (\<lambda>k. count cd + k < SAM_RATE_LIMIT_MAX_REQUESTS) [0..<length (calls_of ip cs)]"
proof (induction cs arbitrary: m cd)
  case Nil
  then show ?case by (simp add: answers_for_Nil calls_of_def)
next
  case (Cons c cs)
  obtain req now where c: "c = (req, now)" by (cases c)
  have rest: "\<forall>(req, now) \<in> set cs. clientIp req = ip \<longrightarrow> now - timestamp cd \<le> SAM_RATE_LIMIT_WINDOW"
    using Cons.prems(2) by simp
  show ?case
  proof (cases "clientIp req = ip")
    case False
    have "snd (checkSAMRateLimit req now m) ip = Some cd"
      using False Cons.prems(1) by (simp add: checkSAMRateLimit_other)
    from Cons.IH[of "snd (checkSAMRateLimit req now m)" cd] this rest False show ?thesis
      by (simp add: c answers_for_Cons calls_of_def)
  next
    case True
    have inw: "\<not> now - timestamp cd > SAM_RATE_LIMIT_WINDOW"
      using Cons.prems(2) True by (simp add: c)
    show ?thesis
    proof (cases "count cd \<ge> SAM_RATE_LIMIT_MAX_REQUESTS")
      case full: True
      have step: "checkSAMRateLimit req now m = (False, m)"
        using True Cons.prems(1) inw full by (simp add: checkSAMRateLimit_def)
      from Cons.IH[of m cd] Cons.prems(1) rest full True show ?thesis
        by (simp add: c answers_for_Cons step calls_of_def map_replicate_const flip: replicate_Suc)
    next
      case room: False
      let ?cd = "cd\<lparr>count := count cd + 1\<rparr>"
      have step: "checkSAMRateLimit req now m = (True, m(ip \<mapsto> ?cd))"
        using True Cons.prems(1) inw room by (simp add: checkSAMRateLimit_def)
      have m': "(m(ip \<mapsto> ?cd)) ip = Some ?cd" by simp
      have rest': "\<forall>(req, now) \<in> set cs. clientIp req = ip \<longrightarrow> now - timestamp ?cd \<le> SAM_RATE_LIMIT_WINDOW"
        using rest by simp
      have "answers_for ip m (c # cs) = True # answers_for ip (m(ip \<mapsto> ?cd)) cs"
        using True by (simp add: c answers_for_Cons step)
      also have "\<dots> = True # map (\<lambda>k. count ?cd + k < SAM_RATE_LIMIT_MAX_REQUESTS) [0..<length (calls_of ip cs)]"
        by (simp only: Cons.IH[of "m(ip \<mapsto> ?cd)" ?cd, OF m' rest'])
      also have "\<dots> = True # map (\<lambda>k. count cd + Suc k < SAM_RATE_LIMIT_MAX_REQUESTS) [0..<length (calls_of ip cs)]"
        by simp
      also have "\<dots> = map (\<lambda>k. count cd + k < SAM_RATE_LIMIT_MAX_REQUESTS) [0..<Suc (length (calls_of ip cs))]"
        using room by (simp add: upt_0_Suc_shift comp_def del: upt_Suc)
      finally show ?thesis using True by (simp add: c calls_of_def)
    qed
  qed
qed

text \<open>
  Claim C1. One call of the rate-limit check: an identity without an entry is admitted and
  gets count 1; an identity whose window is still open (elapsed time at most 60000 ms) is
  admitted exactly when its stored count is below 100, and the count is then incremented;
  an identity whose window has elapsed is admitted and reset to count 1. A window as a
  whole: when the identity has no entry and all its later calls (freely interleaved with
  calls of other identities) arrive within 60000 ms of its first call, its \<open>k\<close>-th call
  (counted from 0) is admitted exactly when \<open>k < 100\<close>; so exactly 100 calls are admitted
  and the 101st is rejected.
\<close>

theorem checkSAMRateLimit_window:
  "(m (clientIp req) = None \<longrightarrow>
      checkSAMRateLimit req now m =
        (True, m(clientIp req \<mapsto> \<lparr>count = 1, timestamp = now\<rparr>)))
   \<and> (\<forall>cd. m (clientIp req) = Some cd \<and> now - timestamp cd \<le> 60000 \<longrightarrow>
      checkSAMRateLimit req now m =
        (if count cd < 100 then (True, m(clientIp req \<mapsto> cd\<lparr>count := count cd + 1\<rparr>))
         else (False, m)))
   \<and> (\<forall>cd. m (clientIp req) = Some cd \<and> now - timestamp cd > 60000 \<longrightarrow>
      checkSAMRateLimit req now m =
        (True, m(clientIp req \<mapsto> \<lparr>count = 1, timestamp = now\<rparr>)))
   \<and> (m (clientIp req) = None \<and>
       (\<forall>(r, t) \<in> set cs. clientIp r = clientIp req \<longrightarrow> t - now \<le> 60000) \<longrightarrow>
      answers_for (clientIp req) m ((req, now) # cs) =
        map (\<lambda>k. k < 100) [0..<Suc (length (calls_of (clientIp req) cs))])"
proof (intro conjI impI allI)
  assume "m (clientIp req) = None"
  then show "checkSAMRateLimit req now m =
      (True, m(clientIp req \<mapsto> \<lparr>count = 1, timestamp = now\<rparr>))"
    by (simp add: checkSAMRateLimit_def)
next
  fix cd
  assume "m (clientIp req) = Some cd \<and> now - timestamp cd \<le> 60000"
  then show "checkSAMRateLimit req now m =
      (if count cd < 100 then (True, m(clientIp req \<mapsto> cd\<lparr>count := count cd + 1\<rparr>))
       else (False, m))"
    by (simp add: checkSAMRateLimit_def SAM_RATE_LIMIT_WINDOW_def
        SAM_RATE_LIMIT_MAX_REQUESTS_def)
next
  fix cd
  assume "m (clientIp req) = Some cd \<and> now - timestamp cd > 60000"
  then show "checkSAMRateLimit req now m =
      (True, m(clientIp req \<mapsto> \<lparr>count = 1, timestamp = now\<rparr>))"
    by (simp add: checkSAMRateLimit_def SAM_RATE_LIMIT_WINDOW_def)
next
  let ?ip = "clientIp req"
  let ?cd = "\<lparr>count = 1, timestamp = now\<rparr>"
  assume a: "m ?ip = None \<and>
    (\<forall>(r, t) \<in> set cs. clientIp r = ?ip \<longrightarrow> t - now \<le> 60000)"
  have step: "checkSAMRateLimit req now m = (True, m(?ip \<mapsto> ?cd))"
    using a by (simp add: checkSAMRateLimit_def)
  have m': "(m(?ip \<mapsto> ?cd)) ?ip = Some ?cd"
    by simp
  have w: "\<forall>(r, t) \<in> set cs. clientIp r = ?ip \<longrightarrow> t - timestamp ?cd \<le> SAM_RATE_LIMIT_WINDOW"
    using a by (simp add: SAM_RATE_LIMIT_WINDOW_def)
  have "answers_for ?ip m ((req, now) # cs) = True # answers_for ?ip (m(?ip \<mapsto> ?cd)) cs"
    by (simp add: answers_for_Cons step)
  also have "\<dots> = True # map (\<lambda>k. count ?cd + k < SAM_RATE_LIMIT_MAX_REQUESTS)
      [0..<length (calls_of ?ip cs)]"
    by (simp only: answers_open_window[of "m(?ip \<mapsto> ?cd)" ?ip ?cd, OF m' w])
  also have "\<dots> = map (\<lambda>k. k < 100) [0..<Suc (length (calls_of ?ip cs))]"
    by (simp add: upt_0_Suc_shift comp_def SAM_RATE_LIMIT_MAX_REQUESTS_def del: upt_Suc)
  finally show "answers_for ?ip m ((req, now) # cs) =
      map (\<lambda>k. k < 100) [0..<Suc (length (calls_of ?ip cs))]" .
qed

theorem checkSAMRateLimit_window_witness:
  "Map.empty (clientIp (plain_request\<lparr>h_x_forwarded_for := Some ''10.0.0.1''\<rparr>)) =
     (None :: rate_entry option)
   \<and> list_all (\<lambda>(r, t). t - 0 \<le> (60000::int))
         (replicate 100 (plain_request\<lparr>h_x_forwarded_for := Some ''10.0.0.1''\<rparr>, 60000))
   \<and> answers_for ''10.0.0.1'' Map.empty
         ((plain_request\<lparr>h_x_forwarded_for := Some ''10.0.0.1''\<rparr>, 0)
          # replicate 100 (plain_request\<lparr>h_x_forwarded_for := Some ''10.0.0.1''\<rparr>, 60000)) =
       replicate 100 True @ [False]
   \<and> [''unknown'' \<mapsto> \<lparr>count = 100, timestamp = 0\<rparr>] (clientIp plain_request) =
       Some \<lparr>count = 100, timestamp = 0\<rparr>
   \<and> (60000::int) - timestamp \<lparr>count = 100, timestamp = 0\<rparr> \<le> 60000
   \<and> checkSAMRateLimit plain_request 60000 [''unknown'' \<mapsto> \<lparr>count = 100, timestamp = 0\<rparr>] =
       (False, [''unknown'' \<mapsto> \<lparr>count = 100, timestamp = 0\<rparr>])
   \<and> (60001::int) - timestamp \<lparr>count = 100, timestamp = 0\<rparr> > 60000
   \<and> checkSAMRateLimit plain_request 60001 [''unknown'' \<mapsto> \<lparr>count = 100, timestamp = 0\<rparr>] =
       (True, [''unknown'' \<mapsto> \<lparr>count = 1, timestamp = 60001\<rparr>])"
proof -
  let ?r = "plain_request\<lparr>h_x_forwarded_for := Some ''10.0.0.1''\<rparr>"
  let ?m = "[''unknown'' \<mapsto> \<lparr>count = 100, timestamp = 0\<rparr>]"
  have ip: "clientIp ?r = ''10.0.0.1''"
    by (simp add: clientIp_def truthy_def)
  have n: "Suc (length (calls_of ''10.0.0.1'' (replicate 100 (?r, 60000)))) = 101"
    by (simp add: calls_of_def ip)
  have flags: "map (\<lambda>k::nat. k < 100) [0..<101] = replicate 100 True @ [False]"
    by code_simp
  have h1: "Map.empty (clientIp ?r) = (None :: rate_entry option)"
    by simp
  have h2: "\<forall>(r, t) \<in> set (replicate 100 (?r, 60000)).
      clientIp r = clientIp ?r \<longrightarrow> t - 0 \<le> (60000::int)"
    by simp
  from checkSAMRateLimit_window[of Map.empty ?r 0 "replicate 100 (?r, 60000)"] h1 h2
  have "answers_for (clientIp ?r) Map.empty ((?r, 0) # replicate 100 (?r, 60000)) =
      map (\<lambda>k. k < 100)
        [0..<Suc (length (calls_of (clientIp ?r) (replicate 100 (?r, 60000))))]"
    by blast
  then have c4: "answers_for ''10.0.0.1'' Map.empty ((?r, 0) # replicate 100 (?r, 60000)) =
      replicate 100 True @ [False]"
    by (simp only: ip n flags)
  have unk: "clientIp plain_request = ''unknown''"
    by (simp add: clientIp_def plain_request_def truthy_def or_str_def)
  have h3: "?m (clientIp plain_request) = Some \<lparr>count = 100, timestamp = 0\<rparr>"
    by (simp add: unk)
  have h4: "(60000::int) - timestamp \<lparr>count = 100, timestamp = 0\<rparr> \<le> 60000"
    by simp
  have h5: "(60001::int) - timestamp \<lparr>count = 100, timestamp = 0\<rparr> > 60000"
    by simp
  from checkSAMRateLimit_window[of ?m plain_request 60000 "[]"] h3 h4
  have c2: "checkSAMRateLimit plain_request 60000 ?m = (False, ?m)"
    by simp
  from checkSAMRateLimit_window[of ?m plain_request 60001 "[]"] h3 h5
  have c3: "checkSAMRateLimit plain_request 60001 ?m =
      (True, [''unknown'' \<mapsto> \<lparr>count = 1, timestamp = 60001\<rparr>])"
    by (simp add: unk)
  have h2': "list_all (\<lambda>(r, t). t - 0 \<le> (60000::int)) (replicate 100 (?r, 60000))"
    by (simp add: list_all_iff)
  from h1 h2' c4 h3 h4 c2 h5 c3 show ?thesis
    by blast
qed

section \<open>Evaluating the handler on concrete requests\<close>

lemma show_nat_100: "show_nat 100 = ''100''"
  by code_simp

lemma show_nat_50: "show_nat 50 = ''50''"
  by code_simp

lemma show_nat_0: "show_nat 0 = ''0''"
  by code_simp

lemma show_nat_500: "show_nat 500 = ''500''"
  by code_simp

lemma parseInt_200: "parseInt ''200'' = Some 200"
  by code_simp

lemmas handler_defs =
  GET_def checkSAMRateLimit_def clientIp_def build_filters_def plain_request_def world_def
  truthy_def normalizeDate_def or_str_def initial_state_def live_entry_def
  searchSAMOpportunities_def withCache_def live_payload_def fetch_opportunities_def
  build_params_def str_param_def float_param_def bool_string_def or_num_def show_int_def
  semantic_step_def success_response_def error_response_def Let_def

text \<open>
  Claim C2, at the request \<^verbatim>\<open>?samApiKey=k&limit=200\<close> on a fresh server: the parameters
  sent to the registry carry \<^verbatim>\<open>limit=100\<close>, and the response echoes \<^verbatim>\<open>limit: 200\<close>.
  For any filters, the \<^verbatim>\<open>limit\<close> parameter sent to the registry is the requested limit
  (or 50) cut down to 100.
\<close>

theorem GET_limit_200_echo:
  "status (fst (GET (world [] 0)
      (plain_request\<lparr>p_samApiKey := Some ''k'', p_limit := Some ''200''\<rparr>) initial_state)) = 200
   \<and> map_option resp_limit (data (body (fst (GET (world [] 0)
      (plain_request\<lparr>p_samApiKey := Some ''k'', p_limit := Some ''200''\<rparr>) initial_state)))) =
       Some 200
   \<and> map (\<lambda>call. map_of (fst call) ''limit'') (upstreamCalls (snd (GET (world [] 0)
      (plain_request\<lparr>p_samApiKey := Some ''k'', p_limit := Some ''200''\<rparr>) initial_state))) =
       [Some ''100'']
   \<and> (''limit'', show_int (min (or_num (limit filters) 50) 100)) \<in> set (build_params filters)"
proof -
  have "(''limit'', show_int (min (or_num (limit filters) 50) 100))
      \<in> set (build_params filters)"
    by (simp add: build_params_def)
  then show ?thesis
    by (simp add: handler_defs parseInt_200 show_nat_100 show_nat_0)
qed

text \<open>
  Claim C5, at the request \<^verbatim>\<open>?samApiKey=k\<close> on a fresh server: the request has no
  \<^verbatim>\<open>active\<close> parameter, and the parameters sent to the registry carry \<^verbatim>\<open>active=false\<close>.
  For any request, the parameters built from the handler's filters carry an \<^verbatim>\<open>active\<close>
  parameter.
\<close>

theorem GET_absent_active_sent:
  "p_active (plain_request\<lparr>p_samApiKey := Some ''k''\<rparr>) = None
   \<and> map (\<lambda>call. map_of (fst call) ''active'') (upstreamCalls (snd (GET (world [] 0)
      (plain_request\<lparr>p_samApiKey := Some ''k''\<rparr>) initial_state))) = [Some ''false'']
   \<and> (''active'', bool_string (p_active req = Some ''true''))
        \<in> set (build_params (build_filters e req))"
proof -
  have "(''active'', bool_string (p_active req = Some ''true''))
      \<in> set (build_params (build_filters e req))"
    by (simp add: build_params_def build_filters_def)
  then show ?thesis
    by (simp add: handler_defs show_nat_50 show_nat_0)
qed

section \<open>The shape of the responses\<close>

lemma live_entry_rate [simp]:
  "live_entry e (s\<lparr>samRateLimitMap := m\<rparr>) f = live_entry e s f"
  by (simp add: live_entry_def)

text \<open>
  Claim C7, as the code has it. A response of the handler is one of four: status 200 with
  \<open>success\<close>, \<open>data\<close> and \<open>timestamp\<close>, where the key \<open>cached\<close> is present (and true)
  exactly when the response is served from the handler's cache, and absent when the
  result was freshly fetched; status 429 with \<open>error\<close> alone, exactly when the rate limiter
  rejects; status 400 with \<open>error\<close> alone, when the registry key is missing; status 500
  with \<open>error\<close> and \<open>timestamp\<close>, when the search throws.
\<close>

theorem GET_response_shape:
  assumes "GET e req s = (resp, s')"
  shows
   "(status resp = 200
       \<and> fst (checkSAMRateLimit req (date_now e) (samRateLimitMap s))
       \<and> truthy (p_samApiKey req) \<noteq> None
       \<and> (\<exists>d. body resp =
             \<lparr>success = Some True, data = Some d,
              cached = (if live_entry e s (build_filters e req) = None then None else Some True),
              error = None, body_timestamp = Some (date_now e)\<rparr>))
    \<or> (status resp = 429
       \<and> fst (checkSAMRateLimit req (date_now e) (samRateLimitMap s)) = False
       \<and> body resp =
             \<lparr>success = None, data = None, cached = None,
              error = Some ''Rate limit exceeded. Please try again later.'',
              body_timestamp = None\<rparr>)
    \<or> (status resp = 400
       \<and> fst (checkSAMRateLimit req (date_now e) (samRateLimitMap s))
       \<and> truthy (p_samApiKey req) = None
       \<and> body resp =
             \<lparr>success = None, data = None, cached = None,
              error = Some ''SAM API key is required'', body_timestamp = None\<rparr>)
    \<or> (status resp = 500
       \<and> fst (checkSAMRateLimit req (date_now e) (samRateLimitMap s))
       \<and> (\<exists>k ex. truthy (p_samApiKey req) = Some k
             \<and> fst (searchSAMOpportunities e (build_filters e req) k
                     (s\<lparr>samRateLimitMap :=
                          snd (checkSAMRateLimit req (date_now e) (samRateLimitMap s))\<rparr>)) = Inl ex)
       \<and> (\<exists>msg. body resp =
             \<lparr>success = None, data = None, cached = None, error = Some msg,
              body_timestamp = Some (date_now e)\<rparr>))"
  using assms
  by (auto simp: GET_def Let_def error_response_def success_response_def
      split: prod.splits if_splits option.splits sum.splits)

theorem GET_response_shape_witness:
  "GET (world [] 0) (plain_request\<lparr>p_samApiKey := Some ''k''\<rparr>) initial_state =
     (fst (GET (world [] 0) (plain_request\<lparr>p_samApiKey := Some ''k''\<rparr>) initial_state),
      snd (GET (world [] 0) (plain_request\<lparr>p_samApiKey := Some ''k''\<rparr>) initial_state))
   \<and> status (fst (GET (world [] 0) (plain_request\<lparr>p_samApiKey := Some ''k''\<rparr>)
        initial_state)) = 200
   \<and> (\<exists>d. body (fst (GET (world [] 0) (plain_request\<lparr>p_samApiKey := Some ''k''\<rparr>)
        initial_state)) =
          \<lparr>success = Some True, data = Some d, cached = None, error = None,
           body_timestamp = Some 1000000\<rparr>)"
proof -
  let ?g = "GET (world [] 0) (plain_request\<lparr>p_samApiKey := Some ''k''\<rparr>) initial_state"
  have st: "status (fst ?g) = 200"
    by (simp add: handler_defs show_nat_50 show_nat_0)
  have miss: "live_entry (world [] 0) initial_state
      (build_filters (world [] 0) (plain_request\<lparr>p_samApiKey := Some ''k''\<rparr>)) = None"
    by (simp add: live_entry_def initial_state_def)
  have now: "date_now (world [] 0) = 1000000"
    by (simp add: world_def)
  have h: "?g = (fst ?g, snd ?g)"
    by simp
  from GET_response_shape[OF h] st miss now show ?thesis
    by simp
qed

text \<open>
  Claim C7 as stated fails: a freshly fetched success response has no \<open>cached\<close> key, and
  the responses with status 400 and 429 have no \<open>timestamp\<close> key.
\<close>

theorem GET_shape_counterexample:
  "status (fst (GET (world [] 0) (plain_request\<lparr>p_samApiKey := Some ''k''\<rparr>) initial_state)) = 200
   \<and> cached (body (fst (GET (world [] 0) (plain_request\<lparr>p_samApiKey := Some ''k''\<rparr>)
        initial_state))) = None
   \<and> status (fst (GET (world [] 0) plain_request initial_state)) = 400
   \<and> body_timestamp (body (fst (GET (world [] 0) plain_request initial_state))) = None
   \<and> status (fst (GET (world [] 0) plain_request
        (initial_state\<lparr>samRateLimitMap :=
           [''unknown'' \<mapsto> \<lparr>count = 100, timestamp = 1000000\<rparr>]\<rparr>))) = 429
   \<and> body_timestamp (body (fst (GET (world [] 0) plain_request
        (initial_state\<lparr>samRateLimitMap :=
           [''unknown'' \<mapsto> \<lparr>count = 100, timestamp = 1000000\<rparr>]\<rparr>)))) = None"
  by (simp add: handler_defs show_nat_50 show_nat_0 SAM_RATE_LIMIT_WINDOW_def
      SAM_RATE_LIMIT_MAX_REQUESTS_def)

section \<open>What each step leaves alone\<close>

lemma live_payload_frame [simp]:
  "live_payload t ttl (s\<lparr>samRateLimitMap := m\<rparr>) f = live_payload t ttl s f"
  "live_payload t ttl (s\<lparr>upstreamCalls := u\<rparr>) f = live_payload t ttl s f"
  by (simp_all add: live_payload_def)

lemma live_entry_calls [simp]:
  "live_entry e (s\<lparr>upstreamCalls := u\<rparr>) f = live_entry e s f"
  by (simp add: live_entry_def)

lemma live_entry_later:
  "live_entry e s f = None \<Longrightarrow> date_now e \<le> date_now e2 \<Longrightarrow> live_entry e2 s f = None"
  by (auto simp: live_entry_def split: option.splits if_splits)

lemma live_payload_later:
  "live_payload t ttl s f = None \<Longrightarrow> t \<le> t2 \<Longrightarrow> live_payload t2 ttl s f = None"
  by (auto simp: live_payload_def split: option.splits if_splits)

lemma same_search_state_refl [simp]: "same_search_state s s"
  by (simp add: same_search_state_def)

lemma same_search_state_trans:
  "same_search_state s s1 \<Longrightarrow> same_search_state s1 s2 \<Longrightarrow> same_search_state s s2"
  by (simp add: same_search_state_def)

lemma begin_embedding_frame:
  "same_search_state s (snd (begin_embedding e t p k s))"
  by (simp add: begin_embedding_def Let_def same_search_state_def split: option.splits)

lemma complete_embedding_frame:
  "same_search_state s (snd (complete_embedding f s))"
  by (simp add: complete_embedding_def same_search_state_def
      split: in_flight.splits sum.splits)

lemma generateEmbeddings_frame:
  "same_search_state s (snd (generateEmbeddings e t p k s))"
  using same_search_state_trans[OF begin_embedding_frame complete_embedding_frame]
  by (simp add: generateEmbeddings_def split_beta)

lemma begin_all_frame:
  "same_search_state s (snd (begin_all e p k opps s))"
proof (induction opps arbitrary: s)
  case Nil
  show ?case by simp
next
  case (Cons opp rest)
  from same_search_state_trans[OF begin_embedding_frame Cons.IH] show ?case
    by (simp add: split_beta)
qed

lemma settle_all_frame:
  "same_search_state s (snd (settle_all e q fs s))"
proof (induction fs arbitrary: s)
  case Nil
  show ?case by simp
next
  case (Cons c rest)
  obtain opp f where c: "c = (opp, f)" by (cases c)
  from same_search_state_trans[OF complete_embedding_frame Cons.IH] show ?case
    by (simp add: c split_beta)
qed

lemma score_all_frame:
  "same_search_state s (snd (score_all e q p k opps s))"
  using same_search_state_trans[OF begin_all_frame settle_all_frame]
  by (simp add: score_all_def split_beta)

lemma performSemanticSearch_frame:
  "same_search_state s (snd (performSemanticSearch e opps query p k s))"
proof (cases "trim query = []")
  case True
  then show ?thesis by (simp add: performSemanticSearch_def)
next
  case False
  have f1: "same_search_state s (snd (generateEmbeddings e query p k s))"
    by (rule generateEmbeddings_frame)
  have f2: "same_search_state s
      (snd (score_all e qv p k opps (snd (generateEmbeddings e query p k s))))" for qv
    by (rule same_search_state_trans[OF f1 score_all_frame])
  from False f1 f2 show ?thesis
    by (simp add: performSemanticSearch_def split_beta split: sum.splits)
qed

lemma semantic_step_frame:
  "same_search_state s (snd (semantic_step e req opps s))"
  by (simp add: semantic_step_def performSemanticSearch_frame split: option.splits)

lemma semantic_step_calls [simp]:
  "upstreamCalls (snd (semantic_step e req opps s)) = upstreamCalls s"
  using semantic_step_frame[of s e req opps] by (simp add: same_search_state_def)

section \<open>A failed fetch is not cached\<close>

lemma show_nat_404: "show_nat 404 = ''404''"
  by code_simp

text \<open>The function handed to \<^verbatim>\<open>withCache\<close>, on a reply that is not \<^verbatim>\<open>ok\<close>: it throws
  the message built from the reply and touches no cache.\<close>

lemma fetch_opportunities_not_ok:
  "upstream e (build_params f) k = UpstreamNotOk st statusText bodyText errorMessage \<Longrightarrow>
   fetch_opportunities e f k s =
     (Inl (JsError (''SAM.gov API error: '' @ show_nat st @ '' '' @ statusText @ '' - ''
                     @ (case errorMessage of Some m \<Rightarrow> m | None \<Rightarrow> bodyText))),
      s\<lparr>upstreamCalls := upstreamCalls s @ [(build_params f, k)]\<rparr>)"
  by (simp add: fetch_opportunities_def upstream_error_message_def Let_def)

text \<open>The handler, when the search throws: status 500 with the message of the exception,
  and the state is the one the search left, so the handler itself stores nothing.\<close>

lemma GET_search_throws:
  assumes "fst (checkSAMRateLimit req (date_now e) (samRateLimitMap s))"
    and "truthy (p_samApiKey req) = Some k"
    and "live_entry e s (build_filters e req) = None"
    and "searchSAMOpportunities e (build_filters e req) k
           (s\<lparr>samRateLimitMap :=
                snd (checkSAMRateLimit req (date_now e) (samRateLimitMap s))\<rparr>) =
         (Inl (JsError msg), s1)"
  shows "GET e req s =
     (\<lparr>status = 500,
       body = \<lparr>success = None, data = None, cached = None, error = Some msg,
               body_timestamp = Some (date_now e)\<rparr>\<rparr>, s1)"
  using assms by (simp add: GET_def Let_def split_beta error_response_def)

lemma searchSAMOpportunities_miss:
  "live_payload (date_now e) 1800 s (json_key f) = None \<Longrightarrow>
   searchSAMOpportunities e f k s =
     (case upstream e (build_params f) k of
        UpstreamNotOk st statusText bodyText errorMessage \<Rightarrow>
          (Inl (JsError (upstream_error_message st statusText bodyText errorMessage)),
           s\<lparr>upstreamCalls := upstreamCalls s @ [(build_params f, k)]\<rparr>)
      | UpstreamThrows ex \<Rightarrow>
          (Inl ex, s\<lparr>upstreamCalls := upstreamCalls s @ [(build_params f, k)]\<rparr>)
      | UpstreamOk b \<Rightarrow>
          (Inr (case opportunitiesData b of
                  None \<Rightarrow> []
                | Some raws \<Rightarrow> map transform_opportunity raws),
           s\<lparr>upstreamCalls := upstreamCalls s @ [(build_params f, k)],
             withCacheStore := (withCacheStore s)
               (json_key f \<mapsto> (case opportunitiesData b of
                          None \<Rightarrow> []
                        | Some raws \<Rightarrow> map transform_opportunity raws,
                     date_now e))\<rparr>))"
  by (simp add: searchSAMOpportunities_def withCache_def fetch_opportunities_def Let_def
      split: upstream_response.splits)

lemma upstreamCalls_search_miss:
  "live_payload (date_now e) 1800 s (json_key f) = None \<Longrightarrow>
   upstreamCalls (snd (searchSAMOpportunities e f k s)) = upstreamCalls s @ [(build_params f, k)]"
  by (simp add: searchSAMOpportunities_miss split: upstream_response.splits)

text \<open>A request that is admitted and misses both caches calls the registry once.\<close>

lemma GET_miss_calls:
  assumes "fst (checkSAMRateLimit req (date_now e) (samRateLimitMap s))"
    and "truthy (p_samApiKey req) = Some k"
    and "live_entry e s (build_filters e req) = None"
    and "live_payload (date_now e) 1800 s (json_key (build_filters e req)) = None"
  shows "upstreamCalls (snd (GET e req s)) =
     upstreamCalls s @ [(build_params (build_filters e req), k)]"
proof -
  obtain a m where c: "checkSAMRateLimit req (date_now e) (samRateLimitMap s) = (a, m)"
    by (cases "checkSAMRateLimit req (date_now e) (samRateLimitMap s)")
  with assms(1) have a: "a" by simp
  let ?s0 = "s\<lparr>samRateLimitMap := m\<rparr>"
  let ?f = "build_filters e req"
  have u: "upstreamCalls (snd (searchSAMOpportunities e ?f k ?s0)) =
      upstreamCalls s @ [(build_params ?f, k)]"
    using assms(4) by (simp add: upstreamCalls_search_miss)
  obtain r s1 where sr: "searchSAMOpportunities e ?f k ?s0 = (r, s1)"
    by (cases "searchSAMOpportunities e ?f k ?s0")
  with u have u1: "upstreamCalls s1 = upstreamCalls s @ [(build_params ?f, k)]" by simp
  show ?thesis
  proof (cases r)
    case (Inl ex)
    then show ?thesis using c a assms(2,3) sr u1
      by (simp add: GET_def Let_def)
  next
    case (Inr opps)
    obtain fin s2 where ss: "semantic_step e req opps s1 = (fin, s2)"
      by (cases "semantic_step e req opps s1")
    have "upstreamCalls s2 = upstreamCalls s1"
      using semantic_step_calls[of e req opps s1] ss by simp
    then show ?thesis using c a assms(2,3) sr u1 Inr ss
      by (simp add: GET_def Let_def)
  qed
qed

text \<open>
  Claim C3. Take a request that is admitted, carries a registry key and misses both caches,
  and whose fetch gets a reply that is not \<^verbatim>\<open>ok\<close>, with status \<open>st\<close>, status text
  \<open>statusText\<close>, body \<open>bodyText\<close> and, when the body is JSON with one, the
  \<^verbatim>\<open>errorMessage\<close> of the body. The function that fetches throws the message
  \<^verbatim>\<open>SAM.gov API error: <st> <statusText> - <errorMessage, or else the body>\<close> and stores
  nothing. The handler answers with status 500 and that very message as \<open>error\<close>. The
  state changes in the rate window and the call log only: \<^verbatim>\<open>searchResultsCache\<close> and the
  \<^verbatim>\<open>withCache\<close> store are as before. Any later identical request (same filters, admitted,
  clock not set back) calls the registry again.
\<close>

theorem upstream_failure_not_cached:
  assumes adm: "fst (checkSAMRateLimit req (date_now e) (samRateLimitMap s))"
    and key: "truthy (p_samApiKey req) = Some k"
    and miss: "live_entry e s (build_filters e req) = None"
    and miss': "live_payload (date_now e) 1800 s (json_key (build_filters e req)) = None"
    and fail: "upstream e (build_params (build_filters e req)) k =
        UpstreamNotOk st statusText bodyText errorMessage"
  shows "(\<forall>sx. fetch_opportunities e (build_filters e req) k sx =
        (Inl (JsError (''SAM.gov API error: '' @ show_nat st @ '' '' @ statusText @ '' - ''
                        @ (case errorMessage of Some m \<Rightarrow> m | None \<Rightarrow> bodyText))),
         sx\<lparr>upstreamCalls := upstreamCalls sx @ [(build_params (build_filters e req), k)]\<rparr>))
    \<and> fst (GET e req s) =
      \<lparr>status = 500,
       body = \<lparr>success = None, data = None, cached = None,
               error = Some (''SAM.gov API error: '' @ show_nat st @ '' '' @ statusText
                             @ '' - ''
                             @ (case errorMessage of Some m \<Rightarrow> m | None \<Rightarrow> bodyText)),
               body_timestamp = Some (date_now e)\<rparr>\<rparr>
    \<and> snd (GET e req s) =
      s\<lparr>samRateLimitMap := snd (checkSAMRateLimit req (date_now e) (samRateLimitMap s)),
        upstreamCalls := upstreamCalls s @ [(build_params (build_filters e req), k)]\<rparr>
    \<and> searchResultsCache (snd (GET e req s)) = searchResultsCache s
    \<and> withCacheStore (snd (GET e req s)) = withCacheStore s
    \<and> (\<forall>e2. date_now e \<le> date_now e2
          \<and> build_filters e2 req = build_filters e req
          \<and> fst (checkSAMRateLimit req (date_now e2) (samRateLimitMap (snd (GET e req s)))) \<longrightarrow>
        upstreamCalls (snd (GET e2 req (snd (GET e req s)))) =
          upstreamCalls (snd (GET e req s)) @ [(build_params (build_filters e req), k)])"
proof -
  let ?f = "build_filters e req"
  let ?m = "snd (checkSAMRateLimit req (date_now e) (samRateLimitMap s))"
  let ?msg = "''SAM.gov API error: '' @ show_nat st @ '' '' @ statusText @ '' - ''
      @ (case errorMessage of Some m \<Rightarrow> m | None \<Rightarrow> bodyText)"
  let ?s' = "s\<lparr>samRateLimitMap := ?m, upstreamCalls := upstreamCalls s @ [(build_params ?f, k)]\<rparr>"
  have thrown: "fetch_opportunities e ?f k sx =
      (Inl (JsError ?msg), sx\<lparr>upstreamCalls := upstreamCalls sx @ [(build_params ?f, k)]\<rparr>)"
    for sx
    using fail by (rule fetch_opportunities_not_ok)
  have sr: "searchSAMOpportunities e ?f k (s\<lparr>samRateLimitMap := ?m\<rparr>) = (Inl (JsError ?msg), ?s')"
    using miss' by (simp add: searchSAMOpportunities_def withCache_def thrown)
  have g: "GET e req s =
      (\<lparr>status = 500,
        body = \<lparr>success = None, data = None, cached = None, error = Some ?msg,
                body_timestamp = Some (date_now e)\<rparr>\<rparr>, ?s')"
    using adm key miss sr by (rule GET_search_throws)
  have again: "upstreamCalls (snd (GET e2 req ?s')) =
      upstreamCalls ?s' @ [(build_params ?f, k)]"
    if t: "date_now e \<le> date_now e2" and f: "build_filters e2 req = ?f"
      and adm2: "fst (checkSAMRateLimit req (date_now e2) (samRateLimitMap ?s'))" for e2
  proof -
    have m1: "live_entry e2 ?s' (build_filters e2 req) = None"
      using live_entry_later[OF miss t] by (simp add: f)
    have m2: "live_payload (date_now e2) 1800 ?s' (json_key (build_filters e2 req)) = None"
      using live_payload_later[OF miss' t] by (simp add: f)
    from GET_miss_calls[OF adm2 key m1 m2] show ?thesis
      by (simp add: f)
  qed
  show ?thesis
    using again thrown by (simp add: g)
qed

theorem upstream_failure_not_cached_witness:
  "fst (checkSAMRateLimit (plain_request\<lparr>p_samApiKey := Some ''k''\<rparr>) (date_now failing_world)
        (samRateLimitMap initial_state))
   \<and> truthy (p_samApiKey (plain_request\<lparr>p_samApiKey := Some ''k''\<rparr>)) = Some ''k''
   \<and> live_entry failing_world initial_state
        (build_filters failing_world (plain_request\<lparr>p_samApiKey := Some ''k''\<rparr>)) = None
   \<and> live_payload (date_now failing_world) 1800 initial_state
        (json_key (build_filters failing_world (plain_request\<lparr>p_samApiKey := Some ''k''\<rparr>))) =
        None
   \<and> upstream failing_world
        (build_params (build_filters failing_world (plain_request\<lparr>p_samApiKey := Some ''k''\<rparr>)))
        ''k'' = UpstreamNotOk 500 ''Internal Server Error'' ''boom'' None
   \<and> error (body (fst (GET failing_world (plain_request\<lparr>p_samApiKey := Some ''k''\<rparr>)
        initial_state))) = Some ''SAM.gov API error: 500 Internal Server Error - boom''
   \<and> status (fst (GET failing_world (plain_request\<lparr>p_samApiKey := Some ''k''\<rparr>)
        initial_state)) = 500
   \<and> searchResultsCache
        (snd (GET failing_world (plain_request\<lparr>p_samApiKey := Some ''k''\<rparr>) initial_state)) =
        Map.empty
   \<and> withCacheStore
        (snd (GET failing_world (plain_request\<lparr>p_samApiKey := Some ''k''\<rparr>) initial_state)) =
        Map.empty
   \<and> length (upstreamCalls (snd (GET failing_world (plain_request\<lparr>p_samApiKey := Some ''k''\<rparr>)
        (snd (GET failing_world (plain_request\<lparr>p_samApiKey := Some ''k''\<rparr>) initial_state))))) =
        2
   \<and> upstream rejecting_world
        (build_params (build_filters rejecting_world (plain_request\<lparr>p_samApiKey := Some ''k''\<rparr>)))
        ''k'' =
      UpstreamNotOk 404 ''Not Found''
        (''{'' @ [CHR 0x22] @ ''errorMessage'' @ [CHR 0x22] @ '':'' @ [CHR 0x22]
           @ ''No such notice'' @ [CHR 0x22] @ ''}'')
        (Some ''No such notice'')
   \<and> error (body (fst (GET rejecting_world (plain_request\<lparr>p_samApiKey := Some ''k''\<rparr>)
        initial_state))) = Some ''SAM.gov API error: 404 Not Found - No such notice''"
proof -
  let ?r = "plain_request\<lparr>p_samApiKey := Some ''k''\<rparr>"
  let ?e = failing_world
  let ?e' = rejecting_world
  have h1: "fst (checkSAMRateLimit ?r t (samRateLimitMap initial_state))" for t
    by (simp add: checkSAMRateLimit_def initial_state_def)
  have h2: "truthy (p_samApiKey ?r) = Some ''k''"
    by (simp add: truthy_def)
  have h3: "live_entry w initial_state f = None" for w f
    by (simp add: live_entry_def initial_state_def)
  have h4: "live_payload t 1800 initial_state f = None" for t f
    by (simp add: live_payload_def initial_state_def)
  have h5: "upstream ?e (build_params (build_filters ?e ?r)) ''k'' =
      UpstreamNotOk 500 ''Internal Server Error'' ''boom'' None"
    by (simp add: failing_world_def world_def)
  have h5': "upstream ?e' (build_params (build_filters ?e' ?r)) ''k'' =
      UpstreamNotOk 404 ''Not Found''
        (''{'' @ [CHR 0x22] @ ''errorMessage'' @ [CHR 0x22] @ '':'' @ [CHR 0x22]
           @ ''No such notice'' @ [CHR 0x22] @ ''}'')
        (Some ''No such notice'')"
    by (simp add: rejecting_world_def world_def)
  note t = upstream_failure_not_cached[OF h1 h2 h3 h4 h5]
  note t' = upstream_failure_not_cached[OF h1 h2 h3 h4 h5']
  note g = t[THEN conjunct2, THEN conjunct1]
  note g' = t'[THEN conjunct2, THEN conjunct1]
  have c1: "error (body (fst (GET ?e ?r initial_state))) =
      Some ''SAM.gov API error: 500 Internal Server Error - boom''"
    unfolding g by (simp add: show_nat_500)
  have c1s: "status (fst (GET ?e ?r initial_state)) = 500"
    unfolding g by simp
  have c1': "error (body (fst (GET ?e' ?r initial_state))) =
      Some ''SAM.gov API error: 404 Not Found - No such notice''"
    unfolding g' by (simp add: show_nat_404)
  note st = t[THEN conjunct2, THEN conjunct2, THEN conjunct1]
  have c2: "searchResultsCache (snd (GET ?e ?r initial_state)) = Map.empty"
    unfolding st by (simp add: initial_state_def)
  have c3: "withCacheStore (snd (GET ?e ?r initial_state)) = Map.empty"
    unfolding st by (simp add: initial_state_def)
  have adm2: "fst (checkSAMRateLimit ?r (date_now ?e)
      (samRateLimitMap (snd (GET ?e ?r initial_state))))"
    unfolding st
    by (simp add: checkSAMRateLimit_def initial_state_def clientIp_def truthy_def
        or_str_def plain_request_def SAM_RATE_LIMIT_WINDOW_def SAM_RATE_LIMIT_MAX_REQUESTS_def)
  note retry = t[THEN conjunct2, THEN conjunct2, THEN conjunct2, THEN conjunct2,
      THEN conjunct2, THEN spec, of ?e, THEN mp, OF conjI[OF order_refl conjI[OF refl adm2]]]
  have c4: "length (upstreamCalls (snd (GET ?e ?r (snd (GET ?e ?r initial_state))))) = 2"
    unfolding retry unfolding st by (simp add: initial_state_def)
  show ?thesis
    by (intro conjI) (rule h1 h2 h3 h4 h5 c1 c1s c2 c3 c4 h5' c1')+
qed

section \<open>The ranking\<close>

text \<open>The comparator sorts by descending score, so the sort is the library's stable sort
  on the negated score.\<close>

lemma insert_by_insort_key:
  "insert_by compare_relevance x xs = insort_key (\<lambda>opp. - relevanceScore opp) x xs"
  by (induction xs) (simp_all add: compare_relevance_def or_zero_def)

lemma js_sort_sort_key:
  "js_sort compare_relevance xs = sort_key (\<lambda>opp. - relevanceScore opp) xs"
  by (induction xs) (simp_all add: js_sort_def sort_key_def insert_by_insort_key)

lemma length_js_sort: "length (js_sort compare_relevance xs) = length xs"
  by (simp add: js_sort_sort_key)

lemma sorted_js_sort:
  "sorted_wrt (\<lambda>a b. relevanceScore b \<le> relevanceScore a) (js_sort compare_relevance xs)"
proof -
  have "sorted (map (\<lambda>opp. - relevanceScore opp) (sort_key (\<lambda>opp. - relevanceScore opp) xs))"
    by (rule sorted_sort_key)
  then show ?thesis
    by (simp add: js_sort_sort_key sorted_map)
qed

lemma stable_js_sort:
  "filter (\<lambda>opp. relevanceScore opp = r) (js_sort compare_relevance xs) =
   filter (\<lambda>opp. relevanceScore opp = r) xs"
  using sort_key_stable[of "\<lambda>opp. - relevanceScore opp" "- r" xs]
  by (simp add: js_sort_sort_key)

lemma prefix_filter_take: "prefix (filter P (take n xs)) (filter P xs)"
proof -
  have "filter P xs = filter P (take n xs) @ filter P (drop n xs)"
    by (simp flip: filter_append)
  then show ?thesis
    by (rule prefixI)
qed

lemma length_begin_all: "length (fst (begin_all e p k opps s)) = length opps"
  by (induction opps arbitrary: s) (simp_all add: split_beta)

lemma settle_all_shape:
  "settle_all e q fs s = (Inr scored, s') \<Longrightarrow>
   map (relevanceScore_update (\<lambda>_. 0)) scored = map (relevanceScore_update (\<lambda>_. 0)) (map fst fs)"
proof (induction fs arbitrary: s scored s')
  case Nil
  then show ?case by simp
next
  case (Cons c rest)
  obtain opp f where c: "c = (opp, f)" by (cases c)
  from Cons.prems Cons.IH show ?case
    by (auto simp: c split: prod.splits sum.splits)
qed

lemma score_all_shape:
  "score_all e q p k opps s = (Inr scored, s') \<Longrightarrow>
   map (relevanceScore_update (\<lambda>_. 0)) scored = map (relevanceScore_update (\<lambda>_. 0)) opps"
proof -
  assume a: "score_all e q p k opps s = (Inr scored, s')"
  let ?fs = "fst (begin_all e p k opps s)"
  from a have "settle_all e q (zip opps ?fs) (snd (begin_all e p k opps s)) = (Inr scored, s')"
    by (simp add: score_all_def split_beta)
  from settle_all_shape[OF this] show ?thesis
    by (simp add: length_begin_all)
qed

lemma score_all_length:
  "score_all e q p k opps s = (Inr scored, s') \<Longrightarrow> length scored = length opps"
  using score_all_shape[of e q p k opps s scored s'] map_eq_imp_length_eq by blast

lemma cos_vals:
  "cosineSimilarity [- 1] [- 1] = 1" "cosineSimilarity [- 1] [1] = - 1"
  by (simp_all add: cosineSimilarity_def magnitude_def dot_def)

lemmas embed_defs = generateEmbeddings_def begin_embedding_def complete_embedding_def
  generateOpenAIEmbeddings_def score_all_def similarity_def world_def
  initial_state_def opportunity_text_def transform_opportunity_def listing_def or_str_def
  or_opt_def truthy_def Let_def

text \<open>
  Claim C6. When the ranking runs to completion (the query is not blank, its embedding and
  the embedding of every candidate succeed, giving the scored candidates \<open>scored\<close>), the
  result is sorted by descending \<open>relevanceScore\<close>, has at most 25 elements, and for every
  score the results with that score are the first candidates with that score, in input
  order; \<open>scored\<close> is the input list with only the scores changed.
\<close>

theorem ranking_sorted_stable_top25:
  assumes q: "trim query \<noteq> []"
    and qe: "generateEmbeddings e query p k s = (Inr qv, s1)"
    and sc: "score_all e qv p k opps s1 = (Inr scored, s2)"
  shows "sorted_wrt (\<lambda>a b. relevanceScore a \<ge> relevanceScore b)
           (fst (performSemanticSearch e opps query p k s))
    \<and> length (fst (performSemanticSearch e opps query p k s)) \<le> 25
    \<and> (\<forall>r. prefix
          (filter (\<lambda>opp. relevanceScore opp = r) (fst (performSemanticSearch e opps query p k s)))
          (filter (\<lambda>opp. relevanceScore opp = r) scored))
    \<and> map (relevanceScore_update (\<lambda>_. 0)) scored = map (relevanceScore_update (\<lambda>_. 0)) opps
    \<and> set (fst (performSemanticSearch e opps query p k s)) \<subseteq> set scored"
proof -
  have out: "fst (performSemanticSearch e opps query p k s) =
      take 25 (js_sort compare_relevance scored)"
    using q qe sc by (simp add: performSemanticSearch_def)
  have a: "sorted_wrt (\<lambda>a b. relevanceScore a \<ge> relevanceScore b)
      (take 25 (js_sort compare_relevance scored))"
    using sorted_js_sort[of scored] by (rule sorted_wrt_take)
  have b: "length (take 25 (js_sort compare_relevance scored)) \<le> 25"
    by simp
  have c: "prefix (filter (\<lambda>opp. relevanceScore opp = r) (take 25 (js_sort compare_relevance scored)))
      (filter (\<lambda>opp. relevanceScore opp = r) scored)" for r
    using prefix_filter_take[of "\<lambda>opp. relevanceScore opp = r" 25 "js_sort compare_relevance scored"]
    by (simp add: stable_js_sort)
  have d: "set (take 25 (js_sort compare_relevance scored)) \<subseteq> set scored"
    using set_take_subset[of 25 "js_sort compare_relevance scored"]
    by (simp add: js_sort_sort_key)
  from a b c d score_all_shape[OF sc] show ?thesis
    by (simp add: out)
qed

theorem ranking_sorted_stable_top25_witness:
  "trim ''q'' \<noteq> []
   \<and> generateEmbeddings (world [] 0) ''q'' ''openai'' ''x'' initial_state =
       (Inr (Vector [- 1]), snd (generateEmbeddings (world [] 0) ''q'' ''openai'' ''x'' initial_state))
   \<and> score_all (world [] 0) (Vector [- 1]) ''openai'' ''x''
         (map (transform_opportunity \<circ> listing) [''bb'', ''a'', ''cc'', ''d''])
         (snd (generateEmbeddings (world [] 0) ''q'' ''openai'' ''x'' initial_state)) =
       (Inr (map (\<lambda>(n, r). (transform_opportunity (listing n))\<lparr>relevanceScore := r\<rparr>)
               [(''bb'', - 1), (''a'', 1), (''cc'', - 1), (''d'', 1)]),
        snd (score_all (world [] 0) (Vector [- 1]) ''openai'' ''x''
         (map (transform_opportunity \<circ> listing) [''bb'', ''a'', ''cc'', ''d''])
         (snd (generateEmbeddings (world [] 0) ''q'' ''openai'' ''x'' initial_state))))
   \<and> sorted_wrt (\<lambda>a b. relevanceScore a \<ge> relevanceScore b)
        (fst (performSemanticSearch (world [] 0)
           (map (transform_opportunity \<circ> listing) [''bb'', ''a'', ''cc'', ''d''])
           ''q'' ''openai'' ''x'' initial_state))
   \<and> length (fst (performSemanticSearch (world [] 0)
           (map (transform_opportunity \<circ> listing) [''bb'', ''a'', ''cc'', ''d''])
           ''q'' ''openai'' ''x'' initial_state)) \<le> 25
   \<and> map title (fst (performSemanticSearch (world [] 0)
           (map (transform_opportunity \<circ> listing) [''bb'', ''a'', ''cc'', ''d''])
           ''q'' ''openai'' ''x'' initial_state)) =
       [Some ''a'', Some ''d'', Some ''bb'', Some ''cc'']"
proof -
  let ?e = "world [] 0"
  let ?opps = "map (transform_opportunity \<circ> listing) [''bb'', ''a'', ''cc'', ''d'']"
  let ?s1 = "snd (generateEmbeddings ?e ''q'' ''openai'' ''x'' initial_state)"
  let ?scored = "map (\<lambda>(n, r). (transform_opportunity (listing n))\<lparr>relevanceScore := r\<rparr>)
      [(''bb'', - 1), (''a'', 1), (''cc'', - 1), (''d'', 1)]"
  have h1: "trim ''q'' \<noteq> []"
    by (simp add: trim_def is_space1_def)
  have g: "fst (generateEmbeddings ?e ''q'' ''openai'' ''x'' initial_state) = Inr (Vector [- 1])"
    by (simp add: embed_defs)
  then have h2: "generateEmbeddings ?e ''q'' ''openai'' ''x'' initial_state = (Inr (Vector [- 1]), ?s1)"
    by (simp add: prod_eq_iff)
  have sc: "fst (score_all ?e (Vector [- 1]) ''openai'' ''x'' ?opps ?s1) = Inr ?scored"
    by (simp add: embed_defs cos_vals)
  then have h3: "score_all ?e (Vector [- 1]) ''openai'' ''x'' ?opps ?s1 =
      (Inr ?scored, snd (score_all ?e (Vector [- 1]) ''openai'' ''x'' ?opps ?s1))"
    by (simp add: prod_eq_iff)
  note t = ranking_sorted_stable_top25[OF h1 h2 h3]
  have out: "fst (performSemanticSearch ?e ?opps ''q'' ''openai'' ''x'' initial_state) =
      take 25 (js_sort compare_relevance ?scored)"
    by (simp only: performSemanticSearch_def split_beta g sc h1 if_False sum.case fst_conv)
  have c3: "map title (fst (performSemanticSearch ?e ?opps ''q'' ''openai'' ''x'' initial_state)) =
      [Some ''a'', Some ''d'', Some ''bb'', Some ''cc'']"
    unfolding out
    by (simp add: js_sort_def compare_relevance_def or_zero_def transform_opportunity_def
        listing_def)
  note c1 = t[THEN conjunct1]
  note c2 = t[THEN conjunct2, THEN conjunct1]
  show ?thesis
    by (intro conjI) (rule h1 h2 h3 c1 c2 c3)+
qed

section \<open>The embedding cache\<close>









section \<open>A failed embedding\<close>

lemma generateEmbeddings_fail_iff:
  "(\<exists>ex. fst (generateEmbeddings e t p k s) = Inl ex) \<longleftrightarrow>
   map_of (embeddingCache s) (p @ '':'' @ t) = None \<and>
   (if p = ''openai'' then \<exists>ex. generateOpenAIEmbeddings e t k = Inl ex
    else if p = ''huggingface'' then \<exists>ex. generateHuggingFaceEmbeddings e t k = Inl ex
    else True)"
  by (auto simp: generateEmbeddings_def begin_embedding_def complete_embedding_def Let_def
      split: option.splits sum.splits)



lemma begin_embedding_cache [simp]:
  "embeddingCache (snd (begin_embedding e t p k s)) = embeddingCache s"
  by (simp add: begin_embedding_def Let_def split: option.splits)









section \<open>The record count of a response\<close>

lemma performSemanticSearch_length:
  "length (fst (performSemanticSearch e opps query p k s)) \<le> length opps"
proof (cases "trim query = []")
  case True
  then show ?thesis by (simp add: performSemanticSearch_def)
next
  case False
  obtain r s1 where g: "generateEmbeddings e query p k s = (r, s1)"
    by (cases "generateEmbeddings e query p k s")
  show ?thesis
  proof (cases r)
    case (Inl ex)
    with False g show ?thesis by (simp add: performSemanticSearch_def)
  next
    case (Inr qv)
    obtain r2 s2 where sc: "score_all e qv p k opps s1 = (r2, s2)"
      by (cases "score_all e qv p k opps s1")
    show ?thesis
    proof (cases r2)
      case (Inl ex)
      with False g Inr sc show ?thesis by (simp add: performSemanticSearch_def)
    next
      case scored: (Inr scored)
      with sc have "length scored = length opps"
        by (simp add: score_all_length)
      with False g Inr sc scored show ?thesis
        by (simp add: performSemanticSearch_def length_js_sort)
    qed
  qed
qed

lemma semantic_step_length:
  "length (fst (semantic_step e req opps s)) \<le> length opps"
  by (simp add: semantic_step_def performSemanticSearch_length split: option.splits)

text \<open>With an OpenAI endpoint that always answers with a vector, and a cache that holds
  vectors only, the ranking always completes.\<close>

lemma begin_embedding_openai_ok:
  assumes "\<And>t k. \<exists>x. openai_endpoint e t k = EmbedOk (Vector x)"
    and "\<forall>v \<in> snd ` set (embeddingCache s). \<exists>x. v = Vector x"
  shows "\<exists>x. fst (complete_embedding (fst (begin_embedding e t ''openai'' k s)) sx) =
    Inr (Vector x)"
proof (cases "map_of (embeddingCache s) (''openai'' @ '':'' @ t)")
  case None
  from assms(1) obtain x where "openai_endpoint e t k = EmbedOk (Vector x)" by blast
  with None show ?thesis
    by (simp add: begin_embedding_def complete_embedding_def generateOpenAIEmbeddings_def
        Let_def)
next
  case (Some v)
  then have "(''openai'' @ '':'' @ t, v) \<in> set (embeddingCache s)"
    by (rule map_of_SomeD)
  then have "v \<in> snd ` set (embeddingCache s)"
    by force
  with assms(2) obtain x where "v = Vector x" by blast
  with Some show ?thesis
    by (simp add: begin_embedding_def complete_embedding_def Let_def)
qed

lemma generateEmbeddings_openai_ok:
  assumes "\<And>t k. \<exists>x. openai_endpoint e t k = EmbedOk (Vector x)"
    and "\<forall>v \<in> snd ` set (embeddingCache s). \<exists>x. v = Vector x"
  shows "\<exists>x. fst (generateEmbeddings e t ''openai'' k s) = Inr (Vector x)"
  using begin_embedding_openai_ok[OF assms, of t k "snd (begin_embedding e t ''openai'' k s)"]
  by (simp add: generateEmbeddings_def split_beta)

lemma generateEmbeddings_keeps_vectors:
  assumes "\<forall>v \<in> snd ` set (embeddingCache s). \<exists>x. v = Vector x"
    and "fst (generateEmbeddings e t p k s) = Inr (Vector x)"
  shows "\<forall>v \<in> snd ` set (embeddingCache (snd (generateEmbeddings e t p k s))).
    \<exists>x. v = Vector x"
proof -
  let ?c = "embeddingCache s"
  let ?c' = "embeddingCache (snd (generateEmbeddings e t p k s))"
  have sub: "snd ` set (AList.update key v al) \<subseteq> insert v (snd ` set al)" for key v
    and al :: "(string \<times> embedding) list"
    by (induction al) auto
  have cases: "?c' = ?c \<or> ?c' = AList.update (p @ '':'' @ t) (Vector x) ?c"
    using assms(2)
    by (auto simp: generateEmbeddings_def begin_embedding_def complete_embedding_def Let_def
        split: option.splits sum.splits if_splits)
  have "snd ` set ?c' \<subseteq> insert (Vector x) (snd ` set ?c)"
  proof (rule disjE[OF cases])
    assume "?c' = ?c"
    then show ?thesis
      by (simp only: subset_insertI)
  next
    assume "?c' = AList.update (p @ '':'' @ t) (Vector x) ?c"
    then show ?thesis
      by (simp only: sub)
  qed
  then have in_old: "v = Vector x \<or> v \<in> snd ` set ?c" if "v \<in> snd ` set ?c'" for v
    using that by (simp only: subset_iff insert_iff)
  show ?thesis
  proof
    fix v
    assume "v \<in> snd ` set ?c'"
    then have "v = Vector x \<or> v \<in> snd ` set ?c"
      by (rule in_old)
    with assms(1) show "\<exists>x. v = Vector x"
      by blast
  qed
qed

lemma begin_all_openai_ok:
  assumes "\<And>t k. \<exists>x. openai_endpoint e t k = EmbedOk (Vector x)"
    and "\<forall>v \<in> snd ` set (embeddingCache s). \<exists>x. v = Vector x"
  shows "\<forall>f \<in> set (fst (begin_all e ''openai'' k opps s)).
    \<forall>sx. \<exists>x. fst (complete_embedding f sx) = Inr (Vector x)"
  using assms(2)
proof (induction opps arbitrary: s)
  case Nil
  show ?case by simp
next
  case (Cons c rest)
  let ?s1 = "snd (begin_embedding e (opportunity_text c) ''openai'' k s)"
  from Cons.prems have "\<forall>v \<in> snd ` set (embeddingCache ?s1). \<exists>x. v = Vector x"
    by simp
  from Cons.IH[OF this] begin_embedding_openai_ok[OF assms(1) Cons.prems]
  show ?case
    by (simp add: split_beta)
qed

lemma settle_all_vectors_ok:
  assumes "\<forall>f \<in> set fs. \<forall>sx. \<exists>x. fst (complete_embedding f sx) = Inr (Vector x)"
    and "length opps = length fs"
  shows "\<exists>scored. fst (settle_all e (Vector q) (zip opps fs) s) = Inr scored"
  using assms
proof (induction fs arbitrary: opps s)
  case Nil
  then show ?case by simp
next
  case (Cons f rest)
  from Cons.prems(2) obtain c cs where o: "opps = c # cs" and l: "length cs = length rest"
    by (cases opps) auto
  have "f \<in> set (f # rest)"
    by simp
  with Cons.prems(1) have "\<forall>sx. \<exists>x. fst (complete_embedding f sx) = Inr (Vector x)"
    by blast
  then obtain x where x: "fst (complete_embedding f s) = Inr (Vector x)"
    by blast
  from Cons.prems(1) have "\<forall>f \<in> set rest. \<forall>sx. \<exists>x. fst (complete_embedding f sx) = Inr (Vector x)"
    by simp
  from Cons.IH[OF this l, of "snd (complete_embedding f s)"] obtain scored where
    "fst (settle_all e (Vector q) (zip cs rest) (snd (complete_embedding f s))) = Inr scored"
    by blast
  with x show ?case
    by (simp add: o split_beta similarity_def)
qed

lemma score_all_openai_ok:
  assumes "\<And>t k. \<exists>x. openai_endpoint e t k = EmbedOk (Vector x)"
    and "\<forall>v \<in> snd ` set (embeddingCache s). \<exists>x. v = Vector x"
  shows "\<exists>scored. fst (score_all e (Vector q) ''openai'' k opps s) = Inr scored"
  using settle_all_vectors_ok[OF begin_all_openai_ok[OF assms, of k opps],
      of opps e q "snd (begin_all e ''openai'' k opps s)"]
  by (simp add: score_all_def split_beta length_begin_all)

lemma performSemanticSearch_openai_length:
  assumes "\<And>t k. \<exists>x. openai_endpoint e t k = EmbedOk (Vector x)"
    and "\<forall>v \<in> snd ` set (embeddingCache s). \<exists>x. v = Vector x"
    and "trim query \<noteq> []"
  shows "length (fst (performSemanticSearch e opps query ''openai'' k s)) = min 25 (length opps)"
proof -
  obtain qv where g: "fst (generateEmbeddings e query ''openai'' k s) = Inr (Vector qv)"
    using generateEmbeddings_openai_ok[OF assms(1,2)] by blast
  let ?s1 = "snd (generateEmbeddings e query ''openai'' k s)"
  have "\<forall>v \<in> snd ` set (embeddingCache ?s1). \<exists>x. v = Vector x"
    using assms(2) g by (rule generateEmbeddings_keeps_vectors)
  then obtain scored where
    sc: "fst (score_all e (Vector qv) ''openai'' k opps ?s1) = Inr scored"
    using score_all_openai_ok[OF assms(1)] by blast
  have "score_all e (Vector qv) ''openai'' k opps ?s1 =
      (Inr scored, snd (score_all e (Vector qv) ''openai'' k opps ?s1))"
    using sc by (simp add: prod_eq_iff)
  then have "length scored = length opps"
    by (rule score_all_length)
  then show ?thesis
    using assms(3) g sc by (simp add: performSemanticSearch_def split_beta length_js_sort)
qed

text \<open>
  Claim C10. For an admitted request with a registry key: when the handler's cache has no
  live entry and the search returns the list \<open>fetched\<close>, the response's \<open>totalRecords\<close>
  is the length of \<open>fetched\<close>, its \<open>opportunities\<close> are the result of the semantic step on
  \<open>fetched\<close> and never longer than \<open>fetched\<close>, the response data is what the cache then
  stores, and when the list was fetched from the registry just now its length is the
  number of listings in the body, whatever total the body reports. When the cache has a
  live entry, the response data is that entry. The witness has 26 listings, a reported
  total of 1000, \<open>totalRecords\<close> 26 and 25 opportunities.
\<close>

theorem totalRecords_is_fetched_length:
  assumes adm: "fst (checkSAMRateLimit req (date_now e) (samRateLimitMap s))"
    and key: "truthy (p_samApiKey req) = Some samKey"
  shows
   "(live_entry e s (build_filters e req) = None
      \<and> searchSAMOpportunities e (build_filters e req) samKey
           (s\<lparr>samRateLimitMap :=
                snd (checkSAMRateLimit req (date_now e) (samRateLimitMap s))\<rparr>) =
          (Inr fetched, sf) \<longrightarrow>
      map_option totalRecords (data (body (fst (GET e req s)))) = Some (length fetched)
      \<and> map_option opportunities (data (body (fst (GET e req s)))) =
          Some (fst (semantic_step e req fetched sf))
      \<and> length (fst (semantic_step e req fetched sf)) \<le> length fetched
      \<and> map_option fst (searchResultsCache (snd (GET e req s))
            (json_key (build_filters e req))) =
          data (body (fst (GET e req s)))
      \<and> (live_payload (date_now e) 1800 s (json_key (build_filters e req)) = None
          \<and> upstream e (build_params (build_filters e req)) samKey = UpstreamOk b \<longrightarrow>
         length fetched =
           (case opportunitiesData b of None \<Rightarrow> 0 | Some raws \<Rightarrow> length raws)))
    \<and> (live_entry e s (build_filters e req) = Some d \<longrightarrow>
      data (body (fst (GET e req s))) = Some d
      \<and> cached (body (fst (GET e req s))) = Some True)"
proof -
  let ?f = "build_filters e req"
  let ?s0 = "s\<lparr>samRateLimitMap := snd (checkSAMRateLimit req (date_now e) (samRateLimitMap s))\<rparr>"
  have fresh: "map_option totalRecords (data (body (fst (GET e req s)))) = Some (length fetched)
      \<and> map_option opportunities (data (body (fst (GET e req s)))) =
          Some (fst (semantic_step e req fetched sf))
      \<and> length (fst (semantic_step e req fetched sf)) \<le> length fetched
      \<and> map_option fst (searchResultsCache (snd (GET e req s)) (json_key ?f)) =
          data (body (fst (GET e req s)))
      \<and> (live_payload (date_now e) 1800 s (json_key ?f) = None
          \<and> upstream e (build_params ?f) samKey = UpstreamOk b \<longrightarrow>
         length fetched =
           (case opportunitiesData b of None \<Rightarrow> 0 | Some raws \<Rightarrow> length raws))"
    if a: "live_entry e s ?f = None \<and> searchSAMOpportunities e ?f samKey ?s0 = (Inr fetched, sf)"
  proof -
    let ?d = "\<lparr>opportunities = fst (semantic_step e req fetched sf),
         totalRecords = length fetched,
         resp_limit = or_num (limit ?f) 50,
         resp_offset = or_num (offset ?f) 0,
         facets = \<lparr>naicsCodes = [], states = [], agencies = [], types = []\<rparr>\<rparr>"
    from a adm key have g: "GET e req s =
      (success_response ?d None (date_now e),
       (snd (semantic_step e req fetched sf))
         \<lparr>searchResultsCache :=
            (searchResultsCache (snd (semantic_step e req fetched sf)))
              (json_key ?f \<mapsto> (?d, date_now e))\<rparr>)"
      by (simp add: GET_def Let_def split_beta)
    have up: "length fetched =
        (case opportunitiesData b of None \<Rightarrow> 0 | Some raws \<Rightarrow> length raws)"
      if m: "live_payload (date_now e) 1800 s (json_key ?f) = None"
        and u: "upstream e (build_params ?f) samKey = UpstreamOk b"
    proof -
      from m have "live_payload (date_now e) 1800 ?s0 (json_key ?f) = None" by simp
      from searchSAMOpportunities_miss[OF this, of samKey] u a show ?thesis
        by (auto split: option.splits)
    qed
    show ?thesis
      unfolding g using up
      by (simp add: success_response_def semantic_step_length)
  qed
  have hit: "data (body (fst (GET e req s))) = Some d
      \<and> cached (body (fst (GET e req s))) = Some True"
    if "live_entry e s ?f = Some d"
    using that adm key by (simp add: GET_def Let_def split_beta success_response_def)
  from fresh hit show ?thesis
    by blast
qed

theorem totalRecords_is_fetched_length_witness:
  "fst (checkSAMRateLimit semantic_request (date_now (world (replicate 26 (listing ''a'')) 1000))
        (samRateLimitMap initial_state))
   \<and> truthy (p_samApiKey semantic_request) = Some ''k''
   \<and> live_entry (world (replicate 26 (listing ''a'')) 1000) initial_state
        (build_filters (world (replicate 26 (listing ''a'')) 1000) semantic_request) = None
   \<and> fst (searchSAMOpportunities (world (replicate 26 (listing ''a'')) 1000)
        (build_filters (world (replicate 26 (listing ''a'')) 1000) semantic_request) ''k''
        (initial_state\<lparr>samRateLimitMap := snd (checkSAMRateLimit semantic_request
           (date_now (world (replicate 26 (listing ''a'')) 1000))
           (samRateLimitMap initial_state))\<rparr>)) =
      Inr (replicate 26 (transform_opportunity (listing ''a'')))
   \<and> live_payload (date_now (world (replicate 26 (listing ''a'')) 1000)) 1800 initial_state
        (json_key (build_filters (world (replicate 26 (listing ''a'')) 1000)
           semantic_request)) = None
   \<and> upstream (world (replicate 26 (listing ''a'')) 1000)
        (build_params (build_filters (world (replicate 26 (listing ''a'')) 1000)
           semantic_request)) ''k'' =
      UpstreamOk \<lparr>opportunitiesData = Some (replicate 26 (listing ''a'')),
                  reported_totalRecords = 1000\<rparr>
   \<and> map_option totalRecords (data (body (fst (GET (world (replicate 26 (listing ''a'')) 1000)
        semantic_request initial_state)))) = Some 26
   \<and> map_option (length \<circ> opportunities) (data (body (fst (GET
        (world (replicate 26 (listing ''a'')) 1000) semantic_request initial_state)))) = Some 25"
proof -
  let ?e = "world (replicate 26 (listing ''a'')) 1000"
  let ?a = "transform_opportunity (listing ''a'')"
  let ?f = "build_filters ?e semantic_request"
  let ?s0 = "initial_state\<lparr>samRateLimitMap := snd (checkSAMRateLimit semantic_request
      (date_now ?e) (samRateLimitMap initial_state))\<rparr>"
  let ?sf = "snd (searchSAMOpportunities ?e ?f ''k'' ?s0)"
  have h1: "fst (checkSAMRateLimit semantic_request (date_now ?e) (samRateLimitMap initial_state))"
    by (simp add: checkSAMRateLimit_def initial_state_def)
  have h2: "truthy (p_samApiKey semantic_request) = Some ''k''"
    by (simp add: truthy_def semantic_request_def)
  have h3: "live_entry ?e initial_state ?f = None"
    by (simp add: live_entry_def initial_state_def)
  have h5: "live_payload (date_now ?e) 1800 initial_state (json_key ?f) = None"
    by (simp add: live_payload_def initial_state_def)
  then have lp: "live_payload (date_now ?e) 1800 ?s0 (json_key ?f) = None"
    by simp
  have h6: "upstream ?e ps key =
      UpstreamOk \<lparr>opportunitiesData = Some (replicate 26 (listing ''a'')),
                  reported_totalRecords = 1000\<rparr>" for ps key
    by (simp add: world_def)
  have h4: "fst (searchSAMOpportunities ?e ?f ''k'' ?s0) = Inr (replicate 26 ?a)"
    by (simp add: searchSAMOpportunities_miss[OF lp] h6)
  then have h4': "searchSAMOpportunities ?e ?f ''k'' ?s0 = (Inr (replicate 26 ?a), ?sf)"
    by (simp add: prod_eq_iff)
  note t = totalRecords_is_fetched_length[OF h1 h2, where fetched="replicate 26 ?a"
      and sf="?sf"]
  note k = t[THEN conjunct1, THEN mp, OF conjI[OF h3 h4']]
  have c1: "map_option totalRecords (data (body (fst (GET ?e semantic_request
      initial_state)))) = Some (length (replicate 26 ?a))"
    by (rule k[THEN conjunct1])
  have c2: "map_option opportunities (data (body (fst (GET ?e semantic_request
      initial_state)))) = Some (fst (semantic_step ?e semantic_request (replicate 26 ?a) ?sf))"
    by (rule k[THEN conjunct2, THEN conjunct1])
  have oa: "\<exists>x. openai_endpoint ?e t k = EmbedOk (Vector x)" for t k
    by (simp add: world_def)
  have "embeddingCache ?sf = embeddingCache initial_state"
    by (simp add: searchSAMOpportunities_miss[OF lp] h6)
  then have ec: "\<forall>v \<in> snd ` set (embeddingCache ?sf). \<exists>x. v = Vector x"
    by (simp add: initial_state_def)
  have q: "trim ''q'' \<noteq> []"
    by (simp add: trim_def is_space1_def)
  have step: "semantic_step ?e semantic_request (replicate 26 ?a) ?sf =
      performSemanticSearch ?e (replicate 26 ?a) ''q'' ''openai'' ''x'' ?sf"
    by (simp add: semantic_step_def semantic_request_def plain_request_def truthy_def
        or_str_def)
  have len: "length (fst (semantic_step ?e semantic_request (replicate 26 ?a) ?sf)) = 25"
    unfolding step using performSemanticSearch_openai_length[OF oa ec q] by simp
  from c2 len have c2': "map_option (length \<circ> opportunities) (data (body (fst (GET ?e
      semantic_request initial_state)))) = Some 25"
    by (cases "data (body (fst (GET ?e semantic_request initial_state)))") auto
  from c1 have c1': "map_option totalRecords (data (body (fst (GET ?e semantic_request
      initial_state)))) = Some 26"
    by simp
  show ?thesis
    by (intro conjI) (rule h1 h2 h3 h4 h5 h6 c1' c2')+
qed

end
